theory Spec2Isabelle
  imports
    Main
    "HOL-Library.Word"
    "HOL-Library.Multiset"
    "HOL-Library.Char_ord"
    "HOL-Library.List_Lexorder"
    "HOL-Library.Product_Lexorder"
begin

section \<open>Bytes, C strings and results\<close>

text \<open>
  An \<open>xmlSecByte\<close> (and an \<open>xmlChar\<close>) is an unsigned 8-bit value; HOL's \<open>char\<close> is
  exactly that, and \<open>of_char\<close> reads its numeric value.  A store through an index that is
  not inside the array it addresses has no defined result in C, and neither has a read
  through a null pointer: the model makes such an access, which is inside no object, the
  separate outcome \<open>OutOfBounds\<close>, so that it can neither be mistaken for a normal return
  nor for an error return.
\<close>

type_synonym xmlSecByte = char

datatype 'a c_result = Ret 'a | OutOfBounds

definition xmlSecStrlen :: "xmlSecByte list \<Rightarrow> nat" where
  "xmlSecStrlen str = length (takeWhile (\<lambda>c. c \<noteq> CHR 0x00) str)"

text \<open>The C string held in a buffer: the bytes before the first NUL.\<close>

definition c_string :: "xmlSecByte list \<Rightarrow> xmlSecByte list" where
  "c_string buf = takeWhile (\<lambda>c. c \<noteq> CHR 0x00) buf"

text \<open>\<open>isspace\<close> of the C library, in the "C" locale.\<close>

definition isspace :: "xmlSecByte \<Rightarrow> bool" where
  "isspace c = (c = CHR 0x20 \<or> c = CHR 0x09 \<or> c = CHR 0x0A \<or> c = CHR 0x0B
                \<or> c = CHR 0x0C \<or> c = CHR 0x0D)"

text \<open>
  Modelled from the spec: the macros \<open>xmlSecIsHex\<close> and \<open>xmlSecGetHex\<close> are declared in a
  header that is not among the sources.  The spec says that a backslash followed by two
  hex digits decodes one byte (\<open>\41\<close> is 0x41); the digits are \<open>0-9\<close>, \<open>a-f\<close>, \<open>A-F\<close>.
\<close>

definition xmlSecIsHex :: "xmlSecByte \<Rightarrow> bool" where
  "xmlSecIsHex c =
     ((CHR ''0'' \<le> c \<and> c \<le> CHR ''9'') \<or> (CHR ''a'' \<le> c \<and> c \<le> CHR ''f'')
      \<or> (CHR ''A'' \<le> c \<and> c \<le> CHR ''F''))"

definition xmlSecGetHex :: "xmlSecByte \<Rightarrow> nat" where
  "xmlSecGetHex c =
     (if CHR ''0'' \<le> c \<and> c \<le> CHR ''9'' then of_char c - of_char (CHR ''0'')
      else if CHR ''a'' \<le> c \<and> c \<le> CHR ''f'' then of_char c - of_char (CHR ''a'') + 10
      else if CHR ''A'' \<le> c \<and> c \<le> CHR ''F'' then of_char c - of_char (CHR ''A'') + 10
      else 0)"

section \<open>Reading one component of a distinguished-name string\<close>

text \<open>
  \<open>xmlSecOpenSSLX509NameStringRead\<close> (the NSS file holds the same function, line for
  line).  The body of its \<open>while\<close> loop first decides which byte the input denotes at the
  current position: \<open>decode_char\<close> is that part of the body, from the test for a backslash
  to the assignment of \<open>outCh\<close>.  \<open>Stop\<close> is the \<open>break\<close> on a backslash that ends the input,
  \<open>Bad\<close> the \<open>return(-1)\<close> for "two hex digits expected", and \<open>Out outCh rest\<close> gives the
  decoded byte together with the input after the last byte read.
\<close>

datatype decoded = Stop | Bad | Out xmlSecByte "xmlSecByte list"

definition decode_char :: "xmlSecByte \<Rightarrow> xmlSecByte list \<Rightarrow> decoded" where
  "decode_char inCh rest =
     (if inCh = CHR 0x5C then
        (case rest of
           [] \<Rightarrow> Stop
         | inCh1 # rest1 \<Rightarrow>
             if xmlSecIsHex inCh1 then
               (case rest1 of
                  [] \<Rightarrow> Bad
                | inCh2 # rest2 \<Rightarrow>
                    if \<not> xmlSecIsHex inCh2 then Bad
                    else Out (char_of (xmlSecGetHex inCh1 * 16 + xmlSecGetHex inCh2)) rest2)
             else Out inCh1 rest1)
      else Out inCh rest)"

lemma decode_char_shorter:
  "decode_char inCh rest = Out outCh rest' \<Longrightarrow> length rest' \<le> length rest"
  by (auto simp: decode_char_def split: if_splits list.splits)

text \<open>
  The loop itself.  Its state is the input still to be read (the source's \<open>(*in) + ii\<close>),
  the output array \<open>out\<close>, the write position \<open>jj\<close> and \<open>nonSpace\<close>.  The result is
  \<open>Ret None\<close> for \<open>return(-1)\<close>, and otherwise the state in which the loop was left.
  The store \<open>out[jj] = outCh\<close> is checked against the array that was really passed.
\<close>

function NameStringRead_loop ::
  "xmlSecByte list \<Rightarrow> xmlSecByte list \<Rightarrow> nat \<Rightarrow> nat \<Rightarrow> nat \<Rightarrow> xmlSecByte \<Rightarrow> bool
   \<Rightarrow> (xmlSecByte list \<times> xmlSecByte list \<times> nat \<times> nat) option c_result" where
  "NameStringRead_loop [] out outSize jj nonSpace delim ingoreTrailingSpaces =
     Ret (Some ([], out, jj, nonSpace))"
| "NameStringRead_loop (inCh # rest) out outSize jj nonSpace delim ingoreTrailingSpaces =
     (if inCh = delim then Ret (Some (inCh # rest, out, jj, nonSpace))
      else if jj \<ge> outSize then Ret None
      else (case decode_char inCh rest of
              Stop \<Rightarrow> Ret (Some ([], out, jj, nonSpace))
            | Bad \<Rightarrow> Ret None
            | Out outCh rest' \<Rightarrow>
                if jj < length out then
                  NameStringRead_loop rest' (out[jj := outCh]) outSize (jj + 1)
                    (if ingoreTrailingSpaces \<and> \<not> isspace outCh then jj + 1 else nonSpace)
                    delim ingoreTrailingSpaces
                else OutOfBounds))"
  by pat_completeness auto
termination
  by (relation "measure (\<lambda>(i, out, outSize, jj, nonSpace, delim, its). length i)")
     (auto dest: decode_char_shorter)

text \<open>
  The function returns through its pointer arguments: the input left, the array, and
  \<open>outWritten\<close>.
\<close>

definition xmlSecOpenSSLX509NameStringRead ::
  "xmlSecByte list \<Rightarrow> xmlSecByte list \<Rightarrow> nat \<Rightarrow> xmlSecByte \<Rightarrow> bool
   \<Rightarrow> (xmlSecByte list \<times> xmlSecByte list \<times> nat) option c_result" where
  "xmlSecOpenSSLX509NameStringRead inp out outSize delim ingoreTrailingSpaces =
     (case NameStringRead_loop inp out outSize 0 0 delim ingoreTrailingSpaces of
        OutOfBounds \<Rightarrow> OutOfBounds
      | Ret None \<Rightarrow> Ret None
      | Ret (Some (inp', out', jj, nonSpace)) \<Rightarrow>
          Ret (Some (inp', out', if ingoreTrailingSpaces then nonSpace else jj)))"

lemma NameStringRead_loop_shorter:
  "NameStringRead_loop inp out outSize jj nonSpace delim its = Ret (Some (inp', r))
   \<Longrightarrow> length inp' \<le> length inp"
proof (induction inp out outSize jj nonSpace delim its rule: NameStringRead_loop.induct)
  case (1 out outSize jj nonSpace delim its)
  then show ?case by simp
next
  case (2 inCh rest out outSize jj nonSpace delim its)
  show ?case
  proof (cases "decode_char inCh rest")
    case Stop
    with "2.prems" show ?thesis by (auto split: if_splits)
  next
    case Bad
    with "2.prems" show ?thesis by (auto split: if_splits)
  next
    case (Out outCh rest')
    with "2.prems" "2.IH"[OF _ _ Out] decode_char_shorter[OF Out] show ?thesis
      by (auto split: if_splits)
  qed
qed

lemma NameStringRead_shorter:
  "xmlSecOpenSSLX509NameStringRead inp out outSize delim its = Ret (Some (inp', r))
   \<Longrightarrow> length inp' \<le> length inp"
  unfolding xmlSecOpenSSLX509NameStringRead_def
  by (auto split: c_result.splits option.splits dest: NameStringRead_loop_shorter)

text \<open>
  The escape rule in words, to be compared with the loop: a component is read up to a
  delimiter that is not escaped, or to the end of the input; a backslash followed by two
  hex digits gives the byte they denote; a backslash followed by a byte that is not a hex
  digit gives that byte; a backslash followed by a hex digit that no second hex digit
  follows is an error; a backslash that ends the input is dropped.  The result is the
  decoded component and the input left.  \<open>trim_right\<close> drops the spaces that end a
  component.
\<close>

fun dn_unescape ::
  "xmlSecByte \<Rightarrow> xmlSecByte list \<Rightarrow> (xmlSecByte list \<times> xmlSecByte list) option" where
  "dn_unescape delim [] = Some ([], [])"
| "dn_unescape delim (c # cs) =
     (if c = delim then Some ([], c # cs)
      else if c \<noteq> CHR 0x5C then map_option (\<lambda>(v, r). (c # v, r)) (dn_unescape delim cs)
      else
        (case cs of
           [] \<Rightarrow> Some ([], [])
         | h1 # cs1 \<Rightarrow>
             if \<not> xmlSecIsHex h1
             then map_option (\<lambda>(v, r). (h1 # v, r)) (dn_unescape delim cs1)
             else
               (case cs1 of
                  [] \<Rightarrow> None
                | h2 # cs2 \<Rightarrow>
                    if xmlSecIsHex h2
                    then map_option
                           (\<lambda>(v, r). (char_of (xmlSecGetHex h1 * 16 + xmlSecGetHex h2) # v, r))
                           (dn_unescape delim cs2)
                    else None)))"

text \<open>
  In the same words: whether the component ends with a backslash that ends the input.
\<close>

fun dn_dangling :: "xmlSecByte \<Rightarrow> xmlSecByte list \<Rightarrow> bool" where
  "dn_dangling delim [] = False"
| "dn_dangling delim (c # cs) =
     (if c = delim then False
      else if c \<noteq> CHR 0x5C then dn_dangling delim cs
      else
        (case cs of
           [] \<Rightarrow> True
         | h1 # cs1 \<Rightarrow>
             if \<not> xmlSecIsHex h1 then dn_dangling delim cs1
             else
               (case cs1 of
                  [] \<Rightarrow> False
                | h2 # cs2 \<Rightarrow> if xmlSecIsHex h2 then dn_dangling delim cs2 else False)))"

definition trim_right :: "xmlSecByte list \<Rightarrow> xmlSecByte list" where
  "trim_right v = rev (dropWhile isspace (rev v))"

section \<open>Names, certificates, revocation lists and the library\<close>

text \<open>
  An \<open>ASN1_OBJECT\<close> is the encoded object identifier of an attribute type, an
  \<open>X509_NAME_ENTRY\<close> one attribute with its value, an \<open>X509_NAME\<close> the entries in the
  order of the name.  An entry of a name always has its object and its data.
\<close>

type_synonym ASN1_OBJECT = "xmlSecByte list"

record X509_NAME_ENTRY =
  entry_object :: ASN1_OBJECT
  entry_data :: "xmlSecByte list"

type_synonym X509_NAME = "X509_NAME_ENTRY list"

type_synonym EVP_PKEY = nat

text \<open>
  An \<open>ASN1_TIME\<close> is a number of seconds, or \<open>None\<close> when the object does not hold a
  well-formed time.  An \<open>ASN1_INTEGER\<close> is the integer it denotes.  The next update of a
  revocation list is an optional field: \<open>X509_CRL_get0_nextUpdate\<close> returns a pointer to
  the time, or NULL (\<open>None\<close>) for a list without the field.
\<close>

type_synonym ASN1_TIME = "int option"

record X509 =
  x509_addr :: nat
  subject_name :: X509_NAME
  issuer_name :: X509_NAME
  serialNumber :: int
  pubkey :: "EVP_PKEY option"
  subject_key_identifier :: "xmlSecByte list option"

record X509_CRL =
  crl_issuer :: X509_NAME
  crl_nextUpdate :: "ASN1_TIME option"
  crl_revoked :: "int list"
  crl_signature :: nat

text \<open>
  The \<open>xmlSecKeyInfoCtx\<close> fields that \<open>xmlSecOpenSSLX509StoreVerify\<close> reads.
\<close>

record xmlSecKeyInfoCtx =
  flags_DONT_VERIFY_CERTS :: bool
  certsVerificationTime :: int
  certsVerificationDepth :: int

text \<open>
  The functions of the OpenSSL library that have no simple closed description are taken as
  parameters, collected in one record, together with the clock:
  \<^item> \<open>X509_NAME_add_entry_by_txt\<close> gives the entry it appends for an attribute name and
    a value, or \<open>None\<close> when it does not return 1 (an unknown attribute name, a value the
    attribute type does not admit);
  \<^item> \<open>BN_dec2bn\<close> followed by \<open>BN_to_ASN1_INTEGER\<close> gives the integer read from a decimal
    string, or \<open>None\<close> when \<open>BN_dec2bn\<close> returns 0;
  \<^item> \<open>X509_NAME_hash_ex\<close> gives the hash of a name, 0 on error;
  \<^item> \<open>X509_NAME_cmp\<close> compares two names in the library's canonical form and gives 0
    for names that are equal there;
  \<^item> \<open>X509_CRL_verify\<close> gives the result of checking a list's signature with a key;
  \<^item> \<open>X509_verify_cert\<close> gives, for the trusted certificates, the certificate to verify,
    the untrusted certificates and the context, the return value together with the
    context's error code and current certificate afterwards;
  \<^item> \<open>time_now\<close> is the current time.
\<close>

record openssl =
  X509_NAME_add_entry_by_txt :: "xmlSecByte list \<Rightarrow> xmlSecByte list \<Rightarrow> X509_NAME_ENTRY option"
  BN_dec2bn :: "xmlSecByte list \<Rightarrow> int option"
  X509_NAME_hash_ex :: "X509_NAME \<Rightarrow> nat"
  X509_NAME_cmp :: "X509_NAME \<Rightarrow> X509_NAME \<Rightarrow> int"
  X509_CRL_verify :: "X509_CRL \<Rightarrow> EVP_PKEY \<Rightarrow> int"
  X509_verify_cert ::
    "X509 list \<Rightarrow> X509 \<Rightarrow> X509 list \<Rightarrow> xmlSecKeyInfoCtx \<Rightarrow> int \<times> int \<times> X509 option"
  time_now :: int

section \<open>Parsing a distinguished-name string\<close>

text \<open>
  \<open>xmlSecOpenSSLX509NameRead\<close>.  \<open>peek\<close> is the read \<open>(*str)\<close>: the string is followed by
  its terminating NUL, which is what the source reads when \<open>strSize\<close> is 0.
\<close>

definition peek :: "xmlSecByte list \<Rightarrow> xmlSecByte" where
  "peek str = (case str of [] \<Rightarrow> CHR 0x00 | c # _ \<Rightarrow> c)"

text \<open>
  The statement \<open>if(strSize > 0) { ... } else { valueSize = 0; }\<close> of the loop body, which
  reads the value.  0x22 is the double quote, 0x23 the hash sign, 0x2C the comma.
\<close>

definition NameRead_value ::
  "xmlSecByte list \<Rightarrow> xmlSecByte list
   \<Rightarrow> (xmlSecByte list \<times> xmlSecByte list \<times> nat) option c_result" where
  "NameRead_value str value =
     (case str of
        [] \<Rightarrow> Ret (Some ([], value, 0))
      | _ # str1 \<Rightarrow>
          if peek str1 = CHR 0x22 then
            (case xmlSecOpenSSLX509NameStringRead (tl str1) value (length value) (CHR 0x22) True of
               OutOfBounds \<Rightarrow> OutOfBounds
             | Ret None \<Rightarrow> Ret None
             | Ret (Some (str2, value2, valueSize)) \<Rightarrow>
                 if str2 = [] \<or> peek str2 \<noteq> CHR 0x22 then Ret None
                 else
                   (let str3 = dropWhile isspace (tl str2) in
                    if str3 \<noteq> [] \<and> peek str3 \<noteq> CHR 0x2C then Ret None
                    else Ret (Some (if str3 \<noteq> [] then tl str3 else str3, value2, valueSize))))
          else if peek str1 = CHR 0x23 then Ret None
          else xmlSecOpenSSLX509NameStringRead str1 value (length value) (CHR 0x2C) True)"

text \<open>
  \<open>xmlStrPrintf(name, sizeof(name), "emailAddress")\<close>: the text and its NUL are written at
  the start of the array.
\<close>

definition xmlStrPrintf :: "xmlSecByte list \<Rightarrow> xmlSecByte list \<Rightarrow> xmlSecByte list" where
  "xmlStrPrintf buf txt = txt @ [CHR 0x00] @ drop (length txt + 1) buf"

text \<open>
  One pass through the body of the \<open>while\<close> loop, up to the call of
  \<open>X509_NAME_add_entry_by_txt\<close>: the input left, the two arrays, and \<open>valueSize\<close>.  The two
  stores of a terminating NUL, \<open>name[nameSize] = '\0'\<close> and \<open>value[valueSize] = '\0'\<close>, are
  checked against the arrays.  0x3D is the equals sign.
\<close>

definition NameRead_entry ::
  "xmlSecByte list \<Rightarrow> xmlSecByte list \<Rightarrow> xmlSecByte list
   \<Rightarrow> (xmlSecByte list \<times> xmlSecByte list \<times> xmlSecByte list \<times> nat) option c_result" where
  "NameRead_entry str name value =
     (case xmlSecOpenSSLX509NameStringRead (dropWhile isspace str) name (length name)
             (CHR 0x3D) False of
        OutOfBounds \<Rightarrow> OutOfBounds
      | Ret None \<Rightarrow> Ret None
      | Ret (Some (str1, name1, nameSize)) \<Rightarrow>
          if \<not> nameSize < length name1 then OutOfBounds
          else
            (let name2 = name1[nameSize := CHR 0x00];
                 name3 = (if c_string name2 = ''E'' then xmlStrPrintf name2 ''emailAddress''
                          else name2)
             in case NameRead_value str1 value of
                  OutOfBounds \<Rightarrow> OutOfBounds
                | Ret None \<Rightarrow> Ret None
                | Ret (Some (str2, value1, valueSize)) \<Rightarrow>
                    if \<not> valueSize < length value1 then OutOfBounds
                    else Ret (Some (if str2 \<noteq> [] then tl str2 else str2, name3,
                                    value1[valueSize := CHR 0x00], valueSize))))"

lemma length_skip_le:
  "length (if dropWhile P xs \<noteq> [] then tl (dropWhile P xs) else dropWhile P xs) \<le> length xs"
  using length_dropWhile_le[of P xs] by (simp add: le_diff_conv trans_le_add1)

lemma NameRead_value_shorter:
  assumes "NameRead_value str value = Ret (Some (str', r))"
  shows "length str' \<le> length str"
proof (cases str)
  case Nil
  with assms show ?thesis by (simp add: NameRead_value_def)
next
  case (Cons c str1)
  show ?thesis
  proof (cases "peek str1 = CHR 0x22")
    case True
    with assms Cons obtain str2 v2 n where
      rd: "xmlSecOpenSSLX509NameStringRead (tl str1) value (length value) (CHR 0x22) True
             = Ret (Some (str2, v2, n))"
      and s: "str' = (if dropWhile isspace (tl str2) \<noteq> [] then tl (dropWhile isspace (tl str2))
                      else dropWhile isspace (tl str2))"
      by (auto simp: NameRead_value_def Let_def split: c_result.splits option.splits if_splits)
    have "length str2 \<le> length (tl str1)"
      using NameStringRead_shorter[OF rd] .
    moreover have "length str' \<le> length (tl str2)"
      unfolding s by (rule length_skip_le)
    ultimately show ?thesis using Cons by simp
  next
    case False
    with assms Cons have
      "xmlSecOpenSSLX509NameStringRead str1 value (length value) (CHR 0x2C) True
         = Ret (Some (str', r))"
      by (auto simp: NameRead_value_def split: if_splits)
    from NameStringRead_shorter[OF this] Cons show ?thesis by simp
  qed
qed

lemma NameRead_entry_shorter:
  assumes "NameRead_entry str name value = Ret (Some (str', r))" and "str \<noteq> []"
  shows "length str' < length str"
proof -
  from assms(1) obtain str1 name1 nameSize str2 r2 where
    rd: "xmlSecOpenSSLX509NameStringRead (dropWhile isspace str) name (length name)
           (CHR 0x3D) False = Ret (Some (str1, name1, nameSize))"
    and rv: "NameRead_value str1 value = Ret (Some (str2, r2))"
    and s: "str' = (if str2 \<noteq> [] then tl str2 else str2)"
    by (auto simp: NameRead_entry_def Let_def split: c_result.splits option.splits if_splits)
  have 1: "length str1 \<le> length str"
    using NameStringRead_shorter[OF rd] length_dropWhile_le[of isspace str] by simp
  have 2: "length str2 \<le> length str1"
    using NameRead_value_shorter[OF rv] .
  show ?thesis
  proof (cases "str2 = []")
    case True
    with s assms(2) show ?thesis by simp
  next
    case False
    then have "length str' < length str2" using s by (cases str2) auto
    with 1 2 show ?thesis by simp
  qed
qed

text \<open>
  The loop of \<open>xmlSecOpenSSLX509NameRead\<close>: it runs while \<open>strSize > 0\<close>, and appends one
  entry to the name in every pass.  The attribute name is passed to the library as a C
  string, the value with its length.
\<close>

function NameRead_loop ::
  "openssl \<Rightarrow> xmlSecByte list \<Rightarrow> xmlSecByte list \<Rightarrow> xmlSecByte list \<Rightarrow> X509_NAME
   \<Rightarrow> X509_NAME option c_result" where
  "NameRead_loop lib str name value nm =
     (if str = [] then Ret (Some nm)
      else
        (case NameRead_entry str name value of
           OutOfBounds \<Rightarrow> OutOfBounds
         | Ret None \<Rightarrow> Ret None
         | Ret (Some (str', name', value', valueSize)) \<Rightarrow>
             (case X509_NAME_add_entry_by_txt lib (c_string name') (take valueSize value') of
                None \<Rightarrow> Ret None
              | Some e \<Rightarrow> NameRead_loop lib str' name' value' (nm @ [e]))))"
  by pat_completeness auto
termination
  by (relation "measure (\<lambda>(lib, str, name, value, nm). length str)")
     (auto dest: NameRead_entry_shorter)

declare NameRead_loop.simps [simp del]

text \<open>
  The arrays \<open>name[256]\<close> and \<open>value[256]\<close> are not initialised by the source; no byte of
  them is read before it is written, so the model may start them with zeros.
\<close>

definition xmlSecOpenSSLX509NameRead :: "openssl \<Rightarrow> xmlSecByte list \<Rightarrow> X509_NAME option c_result" where
  "xmlSecOpenSSLX509NameRead lib str =
     NameRead_loop lib (take (xmlSecStrlen str) str)
       (replicate 256 (CHR 0x00)) (replicate 256 (CHR 0x00)) []"

section \<open>Comparing names\<close>

text \<open>
  \<open>memcmp\<close> of the C library over the first \<open>n\<close> bytes: zero when they agree, and
  otherwise the sign of the difference of the first two bytes that differ.  Every call
  below passes a length that both arrays have.
\<close>

fun memcmp :: "xmlSecByte list \<Rightarrow> xmlSecByte list \<Rightarrow> nat \<Rightarrow> int" where
  "memcmp (x # xs) (y # ys) (Suc n) =
     (if x = y then memcmp xs ys n else int (of_char x) - int (of_char y))"
| "memcmp _ _ _ = 0"

text \<open>
  \<open>OBJ_cmp\<close> of OpenSSL compares two object identifiers by the length of their
  encodings, and encodings of one length byte by byte.
\<close>

definition OBJ_cmp :: "ASN1_OBJECT \<Rightarrow> ASN1_OBJECT \<Rightarrow> int" where
  "OBJ_cmp a b =
     (let ret = int (length a) - int (length b)
      in if ret \<noteq> 0 then ret else memcmp a b (length a))"

text \<open>
  The accessors of an entry.  They return a pointer in C, which the source tests for
  NULL; for an entry of a name neither is NULL.
\<close>

definition X509_NAME_ENTRY_get_data :: "X509_NAME_ENTRY \<Rightarrow> xmlSecByte list option" where
  "X509_NAME_ENTRY_get_data e = Some (entry_data e)"

definition X509_NAME_ENTRY_get_object :: "X509_NAME_ENTRY \<Rightarrow> ASN1_OBJECT option" where
  "X509_NAME_ENTRY_get_object e = Some (entry_object e)"

text \<open>\<open>xmlSecOpenSSLX509_NAME_ENTRY_cmp\<close>: values first, then attribute types.\<close>

definition xmlSecOpenSSLX509_NAME_ENTRY_cmp :: "X509_NAME_ENTRY \<Rightarrow> X509_NAME_ENTRY \<Rightarrow> int" where
  "xmlSecOpenSSLX509_NAME_ENTRY_cmp a b =
     (case (X509_NAME_ENTRY_get_data a, X509_NAME_ENTRY_get_data b) of
        (None, Some b_value) \<Rightarrow> - 1
      | (Some a_value, None) \<Rightarrow> 1
      | (None, None) \<Rightarrow> 0
      | (Some a_value, Some b_value) \<Rightarrow>
          (let a_len = int (length a_value); b_len = int (length b_value);
               ret = a_len - b_len
           in if ret \<noteq> 0 then ret
              else
                (let ret = (if a_len > 0 then memcmp a_value b_value (nat a_len) else ret)
                 in if ret \<noteq> 0 then ret
                    else
                      (case (X509_NAME_ENTRY_get_object a, X509_NAME_ENTRY_get_object b) of
                         (None, Some b_name) \<Rightarrow> - 1
                       | (Some a_name, None) \<Rightarrow> 1
                       | (None, None) \<Rightarrow> 0
                       | (Some a_name, Some b_name) \<Rightarrow> OBJ_cmp a_name b_name))))"

text \<open>
  \<open>sk_X509_NAME_ENTRY_sort\<close> sorts a stack with the comparison function it was given.  The
  library does not say how it places elements that compare equal; the model sorts by
  insertion.  (The comparison of two names does not depend on that choice: it is decided
  by the multisets of their entries, as proved below.)
\<close>

fun sk_insert :: "('a \<Rightarrow> 'a \<Rightarrow> int) \<Rightarrow> 'a \<Rightarrow> 'a list \<Rightarrow> 'a list" where
  "sk_insert cmp x [] = [x]"
| "sk_insert cmp x (y # ys) = (if cmp x y \<le> 0 then x # y # ys else y # sk_insert cmp x ys)"

definition sk_sort :: "('a \<Rightarrow> 'a \<Rightarrow> int) \<Rightarrow> 'a list \<Rightarrow> 'a list" where
  "sk_sort cmp xs = foldr (sk_insert cmp) xs []"

text \<open>\<open>xmlSecOpenSSLX509_NAME_ENTRIES_copy\<close> pushes the entries from the last to the first.\<close>

definition xmlSecOpenSSLX509_NAME_ENTRIES_copy :: "X509_NAME \<Rightarrow> X509_NAME_ENTRY list" where
  "xmlSecOpenSSLX509_NAME_ENTRIES_copy a = rev a"

text \<open>
  \<open>xmlSecOpenSSLX509_NAME_ENTRIES_cmp\<close>: the loop runs \<open>ii\<close> from the last index down to 0,
  so it walks the two reversed stacks in step.
\<close>

fun ENTRIES_cmp_loop :: "X509_NAME_ENTRY list \<Rightarrow> X509_NAME_ENTRY list \<Rightarrow> int" where
  "ENTRIES_cmp_loop (na # as) (nb # bs) =
     (let ret = xmlSecOpenSSLX509_NAME_ENTRY_cmp na nb
      in if ret \<noteq> 0 then ret else ENTRIES_cmp_loop as bs)"
| "ENTRIES_cmp_loop _ _ = 0"

definition xmlSecOpenSSLX509_NAME_ENTRIES_cmp ::
  "X509_NAME_ENTRY list \<Rightarrow> X509_NAME_ENTRY list \<Rightarrow> int" where
  "xmlSecOpenSSLX509_NAME_ENTRIES_cmp a b =
     (if length a \<noteq> length b then int (length a) - int (length b)
      else ENTRIES_cmp_loop (rev a) (rev b))"

definition xmlSecOpenSSLX509NamesCompare :: "X509_NAME \<Rightarrow> X509_NAME \<Rightarrow> int" where
  "xmlSecOpenSSLX509NamesCompare a b =
     (let a1 = sk_sort xmlSecOpenSSLX509_NAME_ENTRY_cmp (xmlSecOpenSSLX509_NAME_ENTRIES_copy a);
          b1 = sk_sort xmlSecOpenSSLX509_NAME_ENTRY_cmp (xmlSecOpenSSLX509_NAME_ENTRIES_copy b)
      in xmlSecOpenSSLX509_NAME_ENTRIES_cmp a1 b1)"

text \<open>
  The order that the comparison function induces, as a key: the length of the value, the
  value, the length of the attribute type, the attribute type.
\<close>

definition entry_key :: "X509_NAME_ENTRY \<Rightarrow> nat \<times> xmlSecByte list \<times> nat \<times> xmlSecByte list" where
  "entry_key e = (length (entry_data e), entry_data e, length (entry_object e), entry_object e)"

text \<open>
  The equality of names in the words of the spec: sort the entries of each name by value
  bytes and then attribute type, and compare the sorted sequences: same length, and
  pairwise the same value length, value bytes and attribute type.  It is stated with the
  library's \<open>sort_key\<close> and its lexicographic order, to be compared with the source's
  function.
\<close>

definition spec_entry_equal :: "X509_NAME_ENTRY \<Rightarrow> X509_NAME_ENTRY \<Rightarrow> bool" where
  "spec_entry_equal x y =
     (length (entry_data x) = length (entry_data y) \<and> entry_data x = entry_data y
      \<and> entry_object x = entry_object y)"

definition spec_names_equal :: "X509_NAME \<Rightarrow> X509_NAME \<Rightarrow> bool" where
  "spec_names_equal a b =
     (let sa = sort_key (\<lambda>e. (entry_data e, entry_object e)) a;
          sb = sort_key (\<lambda>e. (entry_data e, entry_object e)) b
      in length sa = length sb \<and> list_all2 spec_entry_equal sa sb)"

section \<open>Looking a certificate up\<close>

text \<open>
  A block of \<open>xmlSecOpenSSLX509FindCert\<close> either returns from the function or falls
  through to the next block.
\<close>

datatype 'a flow = Returned 'a | Fallthrough

text \<open>\<open>ASN1_INTEGER_cmp\<close> is zero exactly for equal integers.\<close>

definition ASN1_INTEGER_cmp :: "int \<Rightarrow> int \<Rightarrow> int" where
  "ASN1_INTEGER_cmp a b = (if a < b then - 1 else if a = b then 0 else 1)"

text \<open>The block "search by subject name if available".\<close>

definition FindCert_subject ::
  "openssl \<Rightarrow> X509 list \<Rightarrow> xmlSecByte list option \<Rightarrow> X509 option flow c_result" where
  "FindCert_subject lib certs subjectName =
     (case subjectName of
        None \<Rightarrow> Ret Fallthrough
      | Some sn \<Rightarrow>
          (case xmlSecOpenSSLX509NameRead lib sn of
             OutOfBounds \<Rightarrow> OutOfBounds
           | Ret None \<Rightarrow> Ret (Returned None)
           | Ret (Some nm) \<Rightarrow>
               (case find (\<lambda>cert. xmlSecOpenSSLX509NamesCompare nm (subject_name cert) = 0) certs of
                  Some cert \<Rightarrow> Ret (Returned (Some cert))
                | None \<Rightarrow> Ret Fallthrough)))"

text \<open>The block "search by issuer name+serial if available".\<close>

definition FindCert_issuerSerial ::
  "openssl \<Rightarrow> X509 list \<Rightarrow> xmlSecByte list option \<Rightarrow> xmlSecByte list option
   \<Rightarrow> X509 option flow c_result" where
  "FindCert_issuerSerial lib certs issuerName issuerSerial =
     (case (issuerName, issuerSerial) of
        (Some iname, Some iserial) \<Rightarrow>
          (case xmlSecOpenSSLX509NameRead lib iname of
             OutOfBounds \<Rightarrow> OutOfBounds
           | Ret None \<Rightarrow> Ret (Returned None)
           | Ret (Some nm) \<Rightarrow>
               (case BN_dec2bn lib iserial of
                  None \<Rightarrow> Ret (Returned None)
                | Some serial \<Rightarrow>
                    (case find (\<lambda>cert. ASN1_INTEGER_cmp (serialNumber cert) serial = 0
                                  \<and> xmlSecOpenSSLX509NamesCompare nm (issuer_name cert) = 0) certs of
                       Some cert \<Rightarrow> Ret (Returned (Some cert))
                     | None \<Rightarrow> Ret Fallthrough)))
      | _ \<Rightarrow> Ret Fallthrough)"

text \<open>
  The block "search by SKI if available".  A certificate without the extension, or with
  one that cannot be decoded, is passed over.  \<open>XMLSEC_SAFE_CAST_SIZE_TO_INT\<close> returns NULL
  for a size beyond \<open>INT_MAX\<close>.
\<close>

definition FindCert_ski :: "X509 list \<Rightarrow> xmlSecByte list option \<Rightarrow> nat \<Rightarrow> X509 option" where
  "FindCert_ski certs ski skiSize =
     (case ski of
        None \<Rightarrow> None
      | Some s \<Rightarrow>
          if skiSize > 0 then
            (if int skiSize > 2147483647 then None
             else find (\<lambda>cert. case subject_key_identifier cert of
                                 None \<Rightarrow> False
                               | Some keyId \<Rightarrow> length keyId = skiSize
                                              \<and> memcmp keyId s skiSize = 0) certs)
          else None)"

definition xmlSecOpenSSLX509FindCert ::
  "openssl \<Rightarrow> X509 list \<Rightarrow> xmlSecByte list option \<Rightarrow> xmlSecByte list option
   \<Rightarrow> xmlSecByte list option \<Rightarrow> xmlSecByte list option \<Rightarrow> nat \<Rightarrow> X509 option c_result" where
  "xmlSecOpenSSLX509FindCert lib certs subjectName issuerName issuerSerial ski skiSize =
     (case FindCert_subject lib certs subjectName of
        OutOfBounds \<Rightarrow> OutOfBounds
      | Ret (Returned r) \<Rightarrow> Ret r
      | Ret Fallthrough \<Rightarrow>
          (case FindCert_issuerSerial lib certs issuerName issuerSerial of
             OutOfBounds \<Rightarrow> OutOfBounds
           | Ret (Returned r) \<Rightarrow> Ret r
           | Ret Fallthrough \<Rightarrow> Ret (FindCert_ski certs ski skiSize)))"

text \<open>
  The context of the store: the trusted certificates that the \<open>X509_STORE\<close> can find, in
  the order in which its lookup by subject meets them, the stack of untrusted
  certificates and the stack of revocation lists (each a pointer that the source tests
  for NULL).
\<close>

record xmlSecOpenSSLX509StoreCtx =
  ctx_xst :: "X509 list"
  ctx_untrusted :: "X509 list option"
  ctx_crls :: "X509_CRL list option"

definition xmlSecOpenSSLX509StoreFindCert_ex ::
  "openssl \<Rightarrow> xmlSecOpenSSLX509StoreCtx \<Rightarrow> xmlSecByte list option \<Rightarrow> xmlSecByte list option
   \<Rightarrow> xmlSecByte list option \<Rightarrow> xmlSecByte list option \<Rightarrow> nat \<Rightarrow> X509 option c_result" where
  "xmlSecOpenSSLX509StoreFindCert_ex lib ctx subjectName issuerName issuerSerial ski skiSize =
     (case ctx_untrusted ctx of
        None \<Rightarrow> Ret None
      | Some certs \<Rightarrow>
          xmlSecOpenSSLX509FindCert lib certs subjectName issuerName issuerSerial ski skiSize)"

text \<open>
  \<open>xmlSecOpenSSLX509StoreFindCert\<close>.  The decoder \<open>xmlSecBase64DecodeInPlace\<close> is not among
  the sources (the base64 file there is of another version), so it is a parameter: for
  the string it gives the buffer after decoding and the number of bytes decoded, or
  \<open>None\<close> when it returns a negative value.
\<close>

definition xmlSecOpenSSLX509StoreFindCert ::
  "(xmlSecByte list \<Rightarrow> (xmlSecByte list \<times> nat) option) \<Rightarrow> openssl \<Rightarrow> xmlSecOpenSSLX509StoreCtx
   \<Rightarrow> xmlSecByte list option \<Rightarrow> xmlSecByte list option \<Rightarrow> xmlSecByte list option
   \<Rightarrow> xmlSecByte list option \<Rightarrow> X509 option c_result" where
  "xmlSecOpenSSLX509StoreFindCert xmlSecBase64DecodeInPlace lib ctx subjectName issuerName
       issuerSerial ski =
     (case ski of
        Some s \<Rightarrow>
          (case xmlSecBase64DecodeInPlace s of
             None \<Rightarrow> Ret None
           | Some (decoded, skiDecodedSize) \<Rightarrow>
               xmlSecOpenSSLX509StoreFindCert_ex lib ctx subjectName issuerName issuerSerial
                 (Some decoded) skiDecodedSize)
      | None \<Rightarrow>
          xmlSecOpenSSLX509StoreFindCert_ex lib ctx subjectName issuerName issuerSerial None 0)"

section \<open>The serial number of the NSS lookup\<close>

text \<open>
  \<open>xmlSecNssNumToItem\<close>: the 64-bit number is laid out in nine bytes, the first of them
  zero; \<open>zeros_len\<close> counts the zero bytes at the front, starting from 1; the item holds
  the bytes from position \<open>zeros_len - 1\<close> on.  The result is the item's bytes with the
  returned length.  (\<open>PORT_Alloc\<close> is taken to succeed.)
\<close>

function NumToItem_zeros :: "8 word list \<Rightarrow> nat \<Rightarrow> nat \<Rightarrow> nat" where
  "NumToItem_zeros bb bb_len zeros_len =
     (if zeros_len < bb_len \<and> bb ! zeros_len = 0
      then NumToItem_zeros bb bb_len (zeros_len + 1) else zeros_len)"
  by pat_completeness auto
termination
  by (relation "measure (\<lambda>(bb, bb_len, zeros_len). bb_len - zeros_len)") auto

declare NumToItem_zeros.simps [simp del]

definition xmlSecNssNumToItem :: "64 word \<Rightarrow> 8 word list \<times> int" where
  "xmlSecNssNumToItem ui =
     (let bb = [0, ucast (drop_bit 56 ui), ucast (drop_bit 48 ui), ucast (drop_bit 40 ui),
                ucast (drop_bit 32 ui), ucast (drop_bit 24 ui), ucast (drop_bit 16 ui),
                ucast (drop_bit 8 ui), ucast ui];
          bb_len = length bb;
          zeros_len = NumToItem_zeros bb bb_len 1;
          len = bb_len - (zeros_len - 1)
      in (take len (drop (zeros_len - 1) bb), int len))"

text \<open>The eight bytes of a 64-bit number, most significant byte first.\<close>

definition ui_bytes :: "64 word \<Rightarrow> 8 word list" where
  "ui_bytes ui = [ucast (drop_bit 56 ui), ucast (drop_bit 48 ui), ucast (drop_bit 40 ui),
                ucast (drop_bit 32 ui), ucast (drop_bit 24 ui), ucast (drop_bit 16 ui),
                ucast (drop_bit 8 ui), ucast ui]"

text \<open>The number that a string of bytes denotes, most significant byte first.\<close>

definition be_value :: "8 word list \<Rightarrow> nat" where
  "be_value bs = foldl (\<lambda>acc b. acc * 256 + unat b) 0 bs"

section \<open>Revocation lists\<close>

text \<open>
  \<open>X509_STORE_CTX_get_by_subject\<close> with \<open>X509_LU_X509\<close>, on a context initialised with the
  store alone (the source passes NULL for the certificate and for the untrusted chain):
  the library looks among the certificates of the store for one whose subject compares
  equal to the given name under \<open>X509_NAME_cmp\<close>.  The model gives the first such
  certificate of the store.
\<close>

definition X509_STORE_CTX_get_by_subject ::
  "openssl \<Rightarrow> X509 list \<Rightarrow> X509_NAME \<Rightarrow> X509 option" where
  "X509_STORE_CTX_get_by_subject lib store name =
     find (\<lambda>x. X509_NAME_cmp lib (subject_name x) name = 0) store"

definition X509_get_pubkey :: "X509 \<Rightarrow> EVP_PKEY option" where
  "X509_get_pubkey x = pubkey x"

text \<open>\<open>xmlSecOpenSSLX509VerifyCRL\<close>: 1 verified, 0 not verified, -1 error.\<close>

definition xmlSecOpenSSLX509VerifyCRL :: "openssl \<Rightarrow> X509 list \<Rightarrow> X509_CRL \<Rightarrow> int" where
  "xmlSecOpenSSLX509VerifyCRL lib store crl =
     (case X509_STORE_CTX_get_by_subject lib store (crl_issuer crl) of
        None \<Rightarrow> - 1
      | Some xobj \<Rightarrow>
          (case X509_get_pubkey xobj of
             None \<Rightarrow> - 1
           | Some pkey \<Rightarrow>
               (let ret = X509_CRL_verify lib crl pkey
                in if ret = 1 then 1 else 0)))"

text \<open>
  \<open>X509_cmp_current_time\<close> on a time object, as the OpenSSL manual describes it: -1 if
  the time is earlier than or equal to the current time, 1 if it is later, and 0 on
  error (a time that is not well-formed).
\<close>

definition X509_cmp_current_time :: "openssl \<Rightarrow> ASN1_TIME \<Rightarrow> int" where
  "X509_cmp_current_time lib t =
     (case t of None \<Rightarrow> 0 | Some s \<Rightarrow> if s \<le> time_now lib then - 1 else 1)"

text \<open>
  \<open>xmlSecOpenSSLX509VerifyCertAgainstCrls\<close>: 1 when the certificate passes, 0 when it is
  revoked.  The first loop stops at the first list whose issuer compares equal to the
  certificate's issuer; only that list is looked at.  The source hands the pointer that
  \<open>X509_CRL_get0_nextUpdate\<close> returns to \<open>X509_cmp_current_time\<close> without a test, and the
  library reads the time through it: for a list without the field that is a read through
  a null pointer.
\<close>

definition xmlSecOpenSSLX509VerifyCertAgainstCrls ::
  "openssl \<Rightarrow> X509_CRL list \<Rightarrow> X509 \<Rightarrow> int c_result" where
  "xmlSecOpenSSLX509VerifyCertAgainstCrls lib crls cert =
     (case find (\<lambda>crl. xmlSecOpenSSLX509NamesCompare (crl_issuer crl) (issuer_name cert) = 0) crls of
        None \<Rightarrow> Ret 1
      | Some crl \<Rightarrow>
          (case crl_nextUpdate crl of
             None \<Rightarrow> OutOfBounds
           | Some nextUpdate \<Rightarrow>
               (let ret = X509_cmp_current_time lib nextUpdate
                in if ret = 0 then Ret 1
                   else if list_ex (\<lambda>revoked. ASN1_INTEGER_cmp revoked (serialNumber cert) = 0)
                             (crl_revoked crl)
                        then Ret 0 else Ret 1)))"

section \<open>The next certificate up the chain\<close>

definition xmlSecOpenSSLX509GetSubjectHash :: "openssl \<Rightarrow> X509 \<Rightarrow> nat" where
  "xmlSecOpenSSLX509GetSubjectHash lib x = X509_NAME_hash_ex lib (subject_name x)"

definition xmlSecOpenSSLX509GetIssuerHash :: "openssl \<Rightarrow> X509 \<Rightarrow> nat" where
  "xmlSecOpenSSLX509GetIssuerHash lib x = X509_NAME_hash_ex lib (issuer_name x)"

text \<open>
  The loop of \<open>xmlSecOpenSSLX509FindNextChainCert\<close>.  Two pointers are equal when they
  address the same object: the field \<open>x509_addr\<close> tells two copies of a certificate apart,
  so the equality of the records is the equality of the pointers.
\<close>

fun FindNextChainCert_loop :: "openssl \<Rightarrow> nat \<Rightarrow> X509 \<Rightarrow> X509 list \<Rightarrow> X509 option" where
  "FindNextChainCert_loop lib certNameHash cert [] = None"
| "FindNextChainCert_loop lib certNameHash cert (cert_ii # chain) =
     (if cert = cert_ii then FindNextChainCert_loop lib certNameHash cert chain
      else if xmlSecOpenSSLX509GetSubjectHash lib cert_ii = 0 then None
      else if certNameHash = xmlSecOpenSSLX509GetSubjectHash lib cert_ii
        then FindNextChainCert_loop lib certNameHash cert chain
      else if xmlSecOpenSSLX509GetIssuerHash lib cert_ii = 0 then None
      else if certNameHash \<noteq> xmlSecOpenSSLX509GetIssuerHash lib cert_ii
        then FindNextChainCert_loop lib certNameHash cert chain
      else Some cert_ii)"

definition xmlSecOpenSSLX509FindNextChainCert :: "openssl \<Rightarrow> X509 list \<Rightarrow> X509 \<Rightarrow> X509 option" where
  "xmlSecOpenSSLX509FindNextChainCert lib chain cert =
     (let certNameHash = xmlSecOpenSSLX509GetSubjectHash lib cert
      in if certNameHash = 0 then None
         else FindNextChainCert_loop lib certNameHash cert chain)"

section \<open>Verifying the certificates of a signature\<close>

text \<open>
  What \<open>xmlSecOpenSSLX509StoreVerify\<close> reports when it returns NULL: the error it raised
  before leaving, if any.  The codes \<open>X509_V_ERR_...\<close> are those of OpenSSL's header.
\<close>

datatype xmlSecError =
    XMLSEC_ERRORS_R_XMLSEC_FAILED
  | XMLSEC_ERRORS_R_CRYPTO_FAILED
  | XMLSEC_ERRORS_R_CERT_ISSUER_FAILED
  | XMLSEC_ERRORS_R_CERT_NOT_YET_VALID
  | XMLSEC_ERRORS_R_CERT_HAS_EXPIRED
  | XMLSEC_ERRORS_R_CERT_VERIFY_FAILED

definition X509_V_ERR_UNABLE_TO_GET_ISSUER_CERT :: int where
  "X509_V_ERR_UNABLE_TO_GET_ISSUER_CERT = 2"

definition X509_V_ERR_CERT_NOT_YET_VALID :: int where
  "X509_V_ERR_CERT_NOT_YET_VALID = 9"

definition X509_V_ERR_CERT_HAS_EXPIRED :: int where
  "X509_V_ERR_CERT_HAS_EXPIRED = 10"

definition X509_V_ERR_ERROR_IN_CERT_NOT_BEFORE_FIELD :: int where
  "X509_V_ERR_ERROR_IN_CERT_NOT_BEFORE_FIELD = 13"

definition X509_V_ERR_ERROR_IN_CERT_NOT_AFTER_FIELD :: int where
  "X509_V_ERR_ERROR_IN_CERT_NOT_AFTER_FIELD = 14"

text \<open>
  The loop "dup crls but remove all non-verified": a list that verifies stays, one that
  does not is deleted, and any other result leaves the function (\<open>None\<close>).
\<close>

fun StoreVerify_crls :: "openssl \<Rightarrow> X509 list \<Rightarrow> X509_CRL list \<Rightarrow> X509_CRL list option" where
  "StoreVerify_crls lib store [] = Some []"
| "StoreVerify_crls lib store (crl # crls2) =
     (let ret = xmlSecOpenSSLX509VerifyCRL lib store crl
      in if ret = 1 then map_option ((#) crl) (StoreVerify_crls lib store crls2)
         else if ret = 0 then StoreVerify_crls lib store crls2
         else None)"

text \<open>
  The loop "remove all revoked certs": a certificate is checked against the lists of the
  call that are left, and then against the lists of the store.
\<close>

fun StoreVerify_revoked ::
  "openssl \<Rightarrow> X509_CRL list option \<Rightarrow> X509_CRL list option \<Rightarrow> X509 list
   \<Rightarrow> X509 list option c_result" where
  "StoreVerify_revoked lib crls2 store_crls [] = Ret (Some [])"
| "StoreVerify_revoked lib crls2 store_crls (cert # certs2) =
     (case (case crls2 of None \<Rightarrow> Ret 1
            | Some cs \<Rightarrow> xmlSecOpenSSLX509VerifyCertAgainstCrls lib cs cert) of
        OutOfBounds \<Rightarrow> OutOfBounds
      | Ret ret \<Rightarrow>
          if ret = 0 then StoreVerify_revoked lib crls2 store_crls certs2
          else if ret \<noteq> 1 then Ret None
          else
            (case (case store_crls of None \<Rightarrow> Ret 1
                   | Some cs \<Rightarrow> xmlSecOpenSSLX509VerifyCertAgainstCrls lib cs cert) of
               OutOfBounds \<Rightarrow> OutOfBounds
             | Ret ret \<Rightarrow>
                 if ret = 0 then StoreVerify_revoked lib crls2 store_crls certs2
                 else if ret \<noteq> 1 then Ret None
                 else map_c_result (map_option ((#) cert))
                        (StoreVerify_revoked lib crls2 store_crls certs2)))"

text \<open>
  The report after the loop "get one cert after another and try to verify" has found
  nothing: the error of the last attempt, by its code.
\<close>

definition StoreVerify_error :: "int \<Rightarrow> X509 option \<Rightarrow> xmlSecError option" where
  "StoreVerify_error err err_cert =
     (if err \<noteq> 0 \<and> err_cert \<noteq> None then
        (if err = X509_V_ERR_UNABLE_TO_GET_ISSUER_CERT
           then Some XMLSEC_ERRORS_R_CERT_ISSUER_FAILED
         else if err = X509_V_ERR_CERT_NOT_YET_VALID
                 \<or> err = X509_V_ERR_ERROR_IN_CERT_NOT_BEFORE_FIELD
           then Some XMLSEC_ERRORS_R_CERT_NOT_YET_VALID
         else if err = X509_V_ERR_CERT_HAS_EXPIRED
                 \<or> err = X509_V_ERR_ERROR_IN_CERT_NOT_AFTER_FIELD
           then Some XMLSEC_ERRORS_R_CERT_HAS_EXPIRED
         else Some XMLSEC_ERRORS_R_CERT_VERIFY_FAILED)
      else None)"

text \<open>
  The loop "get one cert after another and try to verify", over the certificates still
  to visit; \<open>certs2\<close> is the whole stack, \<open>err\<close> and \<open>err_cert\<close> are those of the last
  attempt.  A certificate is tried only if no next certificate up the chain is found for
  it.  With the flag \<open>XMLSEC_KEYINFO_FLAGS_X509DATA_DONT_VERIFY_CERTS\<close> the library is not
  called and the certificate is taken; the context then still has the error code 0 and no
  current certificate.  The result is the certificate returned, or the error reported
  with the NULL.
\<close>

fun StoreVerify_certs ::
  "openssl \<Rightarrow> xmlSecOpenSSLX509StoreCtx \<Rightarrow> xmlSecKeyInfoCtx \<Rightarrow> X509 list \<Rightarrow> X509 list
   \<Rightarrow> int \<Rightarrow> X509 option \<Rightarrow> xmlSecError option + X509" where
  "StoreVerify_certs lib ctx keyInfoCtx certs2 [] err err_cert =
     Inl (StoreVerify_error err err_cert)"
| "StoreVerify_certs lib ctx keyInfoCtx certs2 (cert # rest) err err_cert =
     (if xmlSecOpenSSLX509FindNextChainCert lib certs2 cert = None then
        (case (if \<not> flags_DONT_VERIFY_CERTS keyInfoCtx
               then X509_verify_cert lib (ctx_xst ctx) cert certs2 keyInfoCtx
               else (1, 0, None)) of
           (ret, err', err_cert') \<Rightarrow>
             if ret = 1 then Inr cert
             else if ret < 0 then Inl (Some XMLSEC_ERRORS_R_CRYPTO_FAILED)
             else StoreVerify_certs lib ctx keyInfoCtx certs2 rest err' err_cert')
      else StoreVerify_certs lib ctx keyInfoCtx certs2 rest err err_cert)"

text \<open>
  The first half of \<open>xmlSecOpenSSLX509StoreVerify\<close>: the certificates of the call
  followed by the untrusted certificates of the store, the loop over the lists of the
  call, and the loop that removes the revoked certificates.  \<open>Ret None\<close> stands for
  \<open>goto done\<close> after an internal error.
\<close>

definition StoreVerify_filtered ::
  "openssl \<Rightarrow> xmlSecOpenSSLX509StoreCtx \<Rightarrow> X509 list \<Rightarrow> X509_CRL list option
   \<Rightarrow> X509 list option c_result" where
  "StoreVerify_filtered lib ctx certs crls_arg =
     (let certs2 = certs @ (case ctx_untrusted ctx of None \<Rightarrow> [] | Some u \<Rightarrow> u)
      in case (case crls_arg of
                 None \<Rightarrow> Some None
               | Some cs \<Rightarrow> map_option Some (StoreVerify_crls lib (ctx_xst ctx) cs)) of
           None \<Rightarrow> Ret None
         | Some crls2 \<Rightarrow> StoreVerify_revoked lib crls2 (ctx_crls ctx) certs2)"

text \<open>
  \<open>xmlSecOpenSSLX509StoreVerify\<close>.  (The allocations of the library are taken to
  succeed.)
\<close>

definition xmlSecOpenSSLX509StoreVerify ::
  "openssl \<Rightarrow> xmlSecOpenSSLX509StoreCtx \<Rightarrow> X509 list \<Rightarrow> X509_CRL list option
   \<Rightarrow> xmlSecKeyInfoCtx \<Rightarrow> (xmlSecError option + X509) c_result" where
  "xmlSecOpenSSLX509StoreVerify lib ctx certs crls_arg keyInfoCtx =
     (case StoreVerify_filtered lib ctx certs crls_arg of
        OutOfBounds \<Rightarrow> OutOfBounds
      | Ret None \<Rightarrow> Ret (Inl (Some XMLSEC_ERRORS_R_XMLSEC_FAILED))
      | Ret (Some certs3) \<Rightarrow> Ret (StoreVerify_certs lib ctx keyInfoCtx certs3 certs3 0 None))"


section \<open>The choice of the certificates to verify in the NSS store\<close>

text \<open>
  A \<open>CERTCertificate\<close> with the fields the loops of \<open>xmlSecNssX509StoreVerify\<close> read; the
  field \<open>cert_addr\<close> again makes the equality of records the equality of pointers.
  \<open>CERT_VerifyCertificate\<close> is a parameter: whether the library returns \<open>SECSuccess\<close> for
  the certificate at the time given.
\<close>

record CERTCertificate =
  cert_addr :: nat
  derSubject :: "xmlSecByte list"
  derIssuer :: "xmlSecByte list"

text \<open>
  The inner loop: it is left by \<open>break\<close> (\<open>True\<close>) at the first other certificate of the
  list whose issuer is the subject of \<open>cert\<close>.
\<close>

fun NssStoreVerify_issuer_of_other :: "CERTCertificate list \<Rightarrow> CERTCertificate \<Rightarrow> bool" where
  "NssStoreVerify_issuer_of_other [] cert = False"
| "NssStoreVerify_issuer_of_other (cert1 # rest) cert =
     (if cert1 = cert then NssStoreVerify_issuer_of_other rest cert
      else if derIssuer cert1 = derSubject cert then True
      else NssStoreVerify_issuer_of_other rest cert)"

fun NssStoreVerify_loop ::
  "(CERTCertificate \<Rightarrow> int \<Rightarrow> bool) \<Rightarrow> bool \<Rightarrow> int \<Rightarrow> CERTCertificate list \<Rightarrow> CERTCertificate list
   \<Rightarrow> CERTCertificate option" where
  "NssStoreVerify_loop CERT_VerifyCertificate dont_verify timeboundary certs [] = None"
| "NssStoreVerify_loop CERT_VerifyCertificate dont_verify timeboundary certs (cert # rest) =
     (if NssStoreVerify_issuer_of_other certs cert
        then NssStoreVerify_loop CERT_VerifyCertificate dont_verify timeboundary certs rest
      else if \<not> dont_verify then
        (if CERT_VerifyCertificate cert timeboundary then Some cert
         else NssStoreVerify_loop CERT_VerifyCertificate dont_verify timeboundary certs rest)
      else Some cert)"

definition xmlSecNssX509StoreVerify ::
  "(CERTCertificate \<Rightarrow> int \<Rightarrow> bool) \<Rightarrow> int \<Rightarrow> CERTCertificate list \<Rightarrow> xmlSecKeyInfoCtx
   \<Rightarrow> CERTCertificate option" where
  "xmlSecNssX509StoreVerify CERT_VerifyCertificate PR_Now certs keyInfoCtx =
     (let timeboundary = (if certsVerificationTime keyInfoCtx > 0
                          then 1000000 * certsVerificationTime keyInfoCtx else PR_Now)
      in NssStoreVerify_loop CERT_VerifyCertificate (flags_DONT_VERIFY_CERTS keyInfoCtx)
           timeboundary certs certs)"

section \<open>Example data\<close>

text \<open>
  A small instance of the library for concrete runs: an attribute name stands for its own
  object identifier, a serial is read from a string of decimal digits, the canonical form
  of a name has the capital letters of its values folded to small ones, two names compare
  equal when their canonical forms are the same, the hash of a name is one more than the
  sum of the bytes of the values of its canonical form, a list's signature verifies with
  the key that is recorded as having made it, and a certificate verifies when its issuer
  compares equal to the subject of a trusted certificate.  The clock stands at 200.
\<close>

definition ex_canon_char :: "xmlSecByte \<Rightarrow> xmlSecByte" where
  "ex_canon_char c =
     (if CHR ''A'' \<le> c \<and> c \<le> CHR ''Z'' then char_of (of_char c + (32::nat)) else c)"

definition ex_canon :: "X509_NAME \<Rightarrow> X509_NAME" where
  "ex_canon nm =
     map (\<lambda>e. \<lparr>entry_object = entry_object e, entry_data = map ex_canon_char (entry_data e)\<rparr>) nm"

definition ex_name_cmp :: "X509_NAME \<Rightarrow> X509_NAME \<Rightarrow> int" where
  "ex_name_cmp a b = (if ex_canon a = ex_canon b then 0 else 1)"

definition ex_add_entry :: "xmlSecByte list \<Rightarrow> xmlSecByte list \<Rightarrow> X509_NAME_ENTRY option" where
  "ex_add_entry name value =
     (if name = [] then None else Some \<lparr>entry_object = name, entry_data = value\<rparr>)"

definition ex_dec2bn :: "xmlSecByte list \<Rightarrow> int option" where
  "ex_dec2bn str =
     (if str \<noteq> [] \<and> list_all (\<lambda>c. CHR ''0'' \<le> c \<and> c \<le> CHR ''9'') str
      then Some (foldl (\<lambda>acc c. acc * 10 + (int (of_char c) - 48)) 0 str) else None)"

definition ex_hash :: "X509_NAME \<Rightarrow> nat" where
  "ex_hash nm = 1 + sum_list (map of_char (concat (map entry_data (ex_canon nm))))"

definition ex_verify_cert ::
  "X509 list \<Rightarrow> X509 \<Rightarrow> X509 list \<Rightarrow> xmlSecKeyInfoCtx \<Rightarrow> int \<times> int \<times> X509 option" where
  "ex_verify_cert store cert chain keyInfoCtx =
     (if list_ex (\<lambda>t. ex_name_cmp (subject_name t) (issuer_name cert) = 0) store
      then (1, 0, None)
      else (0, X509_V_ERR_UNABLE_TO_GET_ISSUER_CERT, Some cert))"

definition ex_lib :: openssl where
  "ex_lib = \<lparr> X509_NAME_add_entry_by_txt = ex_add_entry,
              BN_dec2bn = ex_dec2bn,
              X509_NAME_hash_ex = ex_hash,
              X509_NAME_cmp = ex_name_cmp,
              X509_CRL_verify = (\<lambda>crl pkey. if crl_signature crl = pkey then 1 else 0),
              X509_verify_cert = ex_verify_cert,
              time_now = 200 \<rparr>"

definition ex_name :: "xmlSecByte list \<Rightarrow> X509_NAME" where
  "ex_name cn = [\<lparr>entry_object = ''CN'', entry_data = cn\<rparr>]"

definition ex_cert :: "nat \<Rightarrow> xmlSecByte list \<Rightarrow> xmlSecByte list \<Rightarrow> int \<Rightarrow> X509" where
  "ex_cert addr subject issuer serial =
     \<lparr> x509_addr = addr, subject_name = ex_name subject, issuer_name = ex_name issuer,
       serialNumber = serial, pubkey = Some (10 + addr), subject_key_identifier = None \<rparr>"

definition ex_root :: X509 where
  "ex_root = ex_cert 1 ''Root'' ''Root'' 1"

definition ex_cert5 :: X509 where
  "ex_cert5 = ex_cert 2 ''Leaf5'' ''Root'' 5"

definition ex_cert6 :: X509 where
  "ex_cert6 = ex_cert 3 ''Leaf6'' ''Root'' 6"

text \<open>
  A certificate with the subject of \<open>ex_root\<close> that another authority has issued.
\<close>

definition ex_cross :: X509 where
  "ex_cross = ex_cert 5 ''Root'' ''Other'' 8"

text \<open>A self-signed certificate of the authority that issued \<open>ex_cross\<close>.\<close>

definition ex_other :: X509 where
  "ex_other = ex_cert 6 ''Other'' ''Other'' 9"

text \<open>
  The certificates \<open>ex_root\<close> and \<open>ex_cross\<close> as the NSS store sees them, with the encoded
  names standing for themselves.
\<close>

definition nss_root :: CERTCertificate where
  "nss_root = \<lparr> cert_addr = 1, derSubject = ''Root'', derIssuer = ''Root'' \<rparr>"

definition nss_cross :: CERTCertificate where
  "nss_cross = \<lparr> cert_addr = 5, derSubject = ''Root'', derIssuer = ''Other'' \<rparr>"

text \<open>A certificate that carries a subject key identifier.\<close>

definition ex_cert_ski :: X509 where
  "ex_cert_ski =
     \<lparr> x509_addr = 4, subject_name = ex_name ''Keyed'', issuer_name = ex_name ''Root'',
       serialNumber = 7, pubkey = Some 14,
       subject_key_identifier = Some [CHR 0xAA, CHR 0xBB] \<rparr>"

text \<open>
  Two lists of the issuer \<open>Root\<close> that revoke the serial 5, signed with the key of
  \<open>ex_root\<close>: the next update of one is still to come (300), that of the other has
  passed (100).
\<close>

definition ex_crl_fresh :: X509_CRL where
  "ex_crl_fresh = \<lparr> crl_issuer = ex_name ''Root'', crl_nextUpdate = Some (Some 300),
                     crl_revoked = [5], crl_signature = 11 \<rparr>"

definition ex_crl_expired :: X509_CRL where
  "ex_crl_expired = \<lparr> crl_issuer = ex_name ''Root'', crl_nextUpdate = Some (Some 100),
                       crl_revoked = [5], crl_signature = 11 \<rparr>"

text \<open>
  A list like \<open>ex_crl_fresh\<close> whose signature was not made with the key of the root.
\<close>

definition ex_crl_forged :: X509_CRL where
  "ex_crl_forged = \<lparr> crl_issuer = ex_name ''Root'', crl_nextUpdate = Some (Some 300),
                      crl_revoked = [5], crl_signature = 99 \<rparr>"

text \<open>
  A list like \<open>ex_crl_fresh\<close> whose issuer is written with a small letter.
\<close>

definition ex_crl_lower :: X509_CRL where
  "ex_crl_lower = \<lparr> crl_issuer = ex_name ''root'', crl_nextUpdate = Some (Some 300),
                     crl_revoked = [5], crl_signature = 11 \<rparr>"

definition ex_keyInfoCtx :: xmlSecKeyInfoCtx where
  "ex_keyInfoCtx = \<lparr> flags_DONT_VERIFY_CERTS = False, certsVerificationTime = 0,
                      certsVerificationDepth = 9 \<rparr>"

text \<open>A decoder for concrete runs that rejects the exclamation mark.\<close>

definition ex_decode :: "xmlSecByte list \<Rightarrow> (xmlSecByte list \<times> nat) option" where
  "ex_decode str = (if CHR ''!'' \<in> set str then None else Some (str, length str))"

section \<open>The buffers of the parser\<close>

lemma NameStringRead_loop_in_bounds:
  "outSize \<le> length out \<Longrightarrow>
   NameStringRead_loop inp out outSize jj nonSpace delim its \<noteq> OutOfBounds"
proof (induction inp out outSize jj nonSpace delim its rule: NameStringRead_loop.induct)
  case (1 out outSize jj nonSpace delim its)
  then show ?case by simp
next
  case (2 inCh rest out outSize jj nonSpace delim its)
  show ?case
  proof (cases "decode_char inCh rest")
    case (Out outCh rest')
    with "2.prems" "2.IH"[OF _ _ Out] show ?thesis by auto
  qed auto
qed

lemma NameStringRead_in_bounds:
  "outSize \<le> length out \<Longrightarrow>
   xmlSecOpenSSLX509NameStringRead inp out outSize delim its \<noteq> OutOfBounds"
  using NameStringRead_loop_in_bounds[of outSize out inp 0 0 delim its]
  by (auto simp: xmlSecOpenSSLX509NameStringRead_def split: c_result.splits option.splits)

text \<open>
  C10. The claim: while a distinguished-name string is parsed, a name or value that
  exceeds the 256-byte buffer makes the parse fail, and no write, the terminating NUL
  after a component of maximal length included, lands outside the buffer.  The stores of
  \<open>xmlSecOpenSSLX509NameStringRead\<close> do stay inside (\<open>NameStringRead_in_bounds\<close>), but the
  function accepts a component of exactly 256 bytes, and the caller then stores the NUL
  at index 256 of an array of 256 bytes.  Evaluated on an attribute name of 256 letters,
  and on a value of 256 letters, for any library: the parse runs into that store.
\<close>

theorem C10_terminating_nul_out_of_bounds:
  "xmlSecOpenSSLX509NameRead lib (replicate 256 (CHR ''A'') @ ''=x'') = OutOfBounds
   \<and> xmlSecOpenSSLX509NameRead lib (''CN='' @ replicate 256 (CHR ''A'')) = OutOfBounds"
  by code_simp

section \<open>A lookup whose SKI does not decode\<close>

text \<open>
  C9. Whenever a SKI string is supplied and its base64 decoding fails,
  \<open>xmlSecOpenSSLX509StoreFindCert\<close> returns NULL at once: the subject name, the issuer name
  and the issuer serial are not looked at, whatever they are and whatever the store
  holds.
\<close>

theorem C9_ski_decode_failure:
  "xmlSecBase64DecodeInPlace ski = None \<Longrightarrow>
   xmlSecOpenSSLX509StoreFindCert xmlSecBase64DecodeInPlace lib ctx subjectName issuerName
     issuerSerial (Some ski) = Ret None"
  by (simp add: xmlSecOpenSSLX509StoreFindCert_def)

text \<open>
  At a concrete input: the store holds a certificate with the subject \<open>CN=Leaf5\<close>, which
  the lookup by subject name finds when no SKI is given, and does not return when a SKI
  that fails to decode comes with the same subject name.
\<close>

theorem C9_ski_decode_failure_witness:
  "ex_decode ''!!'' = None
   \<and> xmlSecOpenSSLX509StoreFindCert ex_decode ex_lib
        \<lparr>ctx_xst = [], ctx_untrusted = Some [ex_cert5], ctx_crls = Some []\<rparr>
        (Some ''CN=Leaf5'') None None (Some ''!!'') = Ret None
   \<and> xmlSecOpenSSLX509StoreFindCert ex_decode ex_lib
        \<lparr>ctx_xst = [], ctx_untrusted = Some [ex_cert5], ctx_crls = Some []\<rparr>
        (Some ''CN=Leaf5'') None None None = Ret (Some ex_cert5)"
proof -
  have h: "ex_decode ''!!'' = None"
    by (simp add: ex_decode_def)
  have found: "xmlSecOpenSSLX509StoreFindCert ex_decode ex_lib
        \<lparr>ctx_xst = [], ctx_untrusted = Some [ex_cert5], ctx_crls = Some []\<rparr>
        (Some ''CN=Leaf5'') None None None = Ret (Some ex_cert5)"
    by code_simp
  show ?thesis
    using h found
      C9_ski_decode_failure[where xmlSecBase64DecodeInPlace = ex_decode and ski = "''!!''", OF h]
    by simp
qed

section \<open>A revocation list whose next update has passed\<close>

text \<open>
  What the check of a certificate against the lists does with the time of the next
  update: unless the time is malformed, it has no influence at all.
\<close>

lemma VerifyCertAgainstCrls_ignores_nextUpdate:
  "xmlSecOpenSSLX509VerifyCertAgainstCrls lib [crl\<lparr>crl_nextUpdate := Some (Some t)\<rparr>] cert
   = xmlSecOpenSSLX509VerifyCertAgainstCrls lib [crl\<lparr>crl_nextUpdate := Some (Some t')\<rparr>] cert"
  by (simp add: xmlSecOpenSSLX509VerifyCertAgainstCrls_def X509_cmp_current_time_def)

text \<open>
  C1. The claim: a revocation list whose next update is earlier than the reference time
  carries no revocation information, and a certificate listed only in such lists is not
  removed by the revocation filter.  The source means to do so ("Check date of CRL to make
  sure it's not expired"), but it takes the list for expired when
  \<open>X509_cmp_current_time\<close> returns 0, which is the library's error value; for a next
  update in the past the library returns -1.  Evaluated at the clock 200 on a list with
  next update 100 that revokes the serial 5: the comparison gives -1, the certificate
  with serial 5 is reported revoked (0), the filter removes it, and the verification
  returns no certificate although its issuer is trusted.
\<close>

theorem C1_expired_crl_still_revokes:
  "map_option (X509_cmp_current_time ex_lib) (crl_nextUpdate ex_crl_expired) = Some (- 1)
   \<and> xmlSecOpenSSLX509VerifyCertAgainstCrls ex_lib [ex_crl_expired] ex_cert5 = Ret 0
   \<and> StoreVerify_revoked ex_lib None (Some [ex_crl_expired]) [ex_cert5, ex_cert6]
       = Ret (Some [ex_cert6])
   \<and> xmlSecOpenSSLX509StoreVerify ex_lib
        \<lparr>ctx_xst = [ex_root], ctx_untrusted = Some [], ctx_crls = Some [ex_crl_expired]\<rparr>
        [ex_cert5] None ex_keyInfoCtx = Ret (Inl None)"
  by code_simp

section \<open>The escape rule\<close>

lemma trim_right_Cons:
  "trim_right (c # v) = (if isspace c \<and> list_all isspace v then [] else c # trim_right v)"
  by (auto simp: trim_right_def dropWhile_append list_all_iff)

lemma trim_right_all_space: "list_all isspace v \<Longrightarrow> trim_right v = []"
  by (simp add: trim_right_def list_all_iff)

lemma buffer_store_step:
  "jj < length out \<Longrightarrow>
   take (Suc jj) (out[jj := c]) @ v @ drop (Suc (jj + length v)) (out[jj := c])
   = take jj out @ (c # v) @ drop (jj + length (c # v)) out"
  by (simp add: take_Suc_conv_app_nth)

lemma dn_unescape_decode:
  "c \<noteq> delim \<Longrightarrow>
   dn_unescape delim (c # cs) =
     (case decode_char c cs of
        Stop \<Rightarrow> Some ([], [])
      | Bad \<Rightarrow> None
      | Out b rest \<Rightarrow> map_option (\<lambda>(v, r). (b # v, r)) (dn_unescape delim rest))"
  apply (subst dn_unescape.simps(2))
  apply (simp del: dn_unescape.simps add: decode_char_def split: list.splits)
  done

lemma dn_dangling_decode:
  "c \<noteq> delim \<Longrightarrow>
   dn_dangling delim (c # cs) =
     (case decode_char c cs of
        Stop \<Rightarrow> True
      | Bad \<Rightarrow> False
      | Out b rest \<Rightarrow> dn_dangling delim rest)"
  apply (subst dn_dangling.simps(2))
  apply (simp del: dn_dangling.simps add: decode_char_def split: list.splits)
  done

lemma NameStringRead_loop_unescape_fit:
  "dn_unescape delim inp = Some (v, rest) \<Longrightarrow> jj + length v \<le> outSize \<Longrightarrow>
   (jj + length v = outSize \<Longrightarrow> \<not> dn_dangling delim inp) \<Longrightarrow> outSize \<le> length out \<Longrightarrow>
   NameStringRead_loop inp out outSize jj ns delim its =
     Ret (Some (rest, take jj out @ v @ drop (jj + length v) out, jj + length v,
            if its \<and> \<not> list_all isspace v then jj + length (trim_right v) else ns))"
proof (induction inp out outSize jj ns delim its arbitrary: v rule: NameStringRead_loop.induct)
  case (1 out outSize jj nonSpace delim its)
  then show ?case by simp
next
  case (2 inCh cs out outSize jj ns delim its)
  note p1 = "2.prems"(1) and p2 = "2.prems"(2) and p3 = "2.prems"(3) and p4 = "2.prems"(4)
  show ?case
  proof (cases "inCh = delim")
    case True
    with p1 show ?thesis by auto
  next
    case nd: False
    note un = p1[unfolded dn_unescape_decode[OF nd]]
    note dg = dn_dangling_decode[OF nd, of cs]
    show ?thesis
    proof (cases "decode_char inCh cs")
      case Stop
      with un have v: "v = []" and r: "rest = []" by simp_all
      from dg Stop have "dn_dangling delim (inCh # cs)" by simp
      with p3 v have "jj \<noteq> outSize" by auto
      with p2 have jj': "\<not> outSize \<le> jj" by simp
      with Stop nd v r show ?thesis by (simp del: dn_unescape.simps dn_dangling.simps)
    next
      case Bad
      with un show ?thesis by simp
    next
      case (Out outCh rest')
      with un obtain v' where
        v: "v = outCh # v'" and r: "dn_unescape delim rest' = Some (v', rest)"
        by (auto simp del: dn_unescape.simps)
      have jj': "\<not> outSize \<le> jj" using p2 v by simp
      have jj: "jj < length out" using jj' p4 by simp
      have len: "jj + 1 + length v' \<le> outSize" "outSize \<le> length (out[jj := outCh])"
        using p2 p4 v by auto
      have d': "\<not> dn_dangling delim rest'" if "jj + 1 + length v' = outSize"
      proof -
        from that v have "jj + length v = outSize" by simp
        from p3[OF this] dg Out show ?thesis by simp
      qed
      note ih = "2.IH"[OF nd jj' Out jj r len(1) d' len(2)]
      have "NameStringRead_loop (inCh # cs) out outSize jj ns delim its =
         NameStringRead_loop rest' (out[jj := outCh]) outSize (jj + 1)
           (if its \<and> \<not> isspace outCh then jj + 1 else ns) delim its"
        using nd jj jj' Out by simp
      also note ih
      finally show ?thesis
        using jj buffer_store_step[OF jj, of outCh v']
        by (auto simp add: v trim_right_Cons trim_right_all_space)
    qed
  qed
qed

lemma NameStringRead_loop_unescape_long:
  "dn_unescape delim inp = Some (v, rest) \<Longrightarrow> outSize < jj + length v \<Longrightarrow> jj \<le> outSize \<Longrightarrow>
   outSize \<le> length out \<Longrightarrow>
   NameStringRead_loop inp out outSize jj ns delim its = Ret None"
proof (induction inp out outSize jj ns delim its arbitrary: v rule: NameStringRead_loop.induct)
  case (1 out outSize jj nonSpace delim its)
  then show ?case by simp
next
  case (2 inCh cs out outSize jj ns delim its)
  note p1 = "2.prems"(1) and p2 = "2.prems"(2) and p3 = "2.prems"(3) and p4 = "2.prems"(4)
  show ?case
  proof (cases "inCh = delim")
    case True
    with p1 p2 p3 show ?thesis by auto
  next
    case nd: False
    note un = p1[unfolded dn_unescape_decode[OF nd]]
    show ?thesis
    proof (cases "outSize \<le> jj")
      case True
      with nd show ?thesis by simp
    next
      case jj': False
      show ?thesis
      proof (cases "decode_char inCh cs")
        case Stop
        with un p2 jj' show ?thesis by (simp del: dn_unescape.simps)
      next
        case Bad
        with un show ?thesis by simp
      next
        case (Out outCh rest')
        with un obtain v' where
          v: "v = outCh # v'" and r: "dn_unescape delim rest' = Some (v', rest)"
          by (auto simp del: dn_unescape.simps)
        have jj: "jj < length out" using jj' p4 by simp
        have len: "outSize < jj + 1 + length v'" "jj + 1 \<le> outSize"
          "outSize \<le> length (out[jj := outCh])"
          using p2 p4 jj' v by auto
        show ?thesis using "2.IH"[OF nd jj' Out jj r len] nd jj jj' Out by simp
      qed
    qed
  qed
qed

lemma NameStringRead_loop_unescape_None:
  "dn_unescape delim inp = None \<Longrightarrow> outSize \<le> length out \<Longrightarrow>
   NameStringRead_loop inp out outSize jj ns delim its = Ret None"
proof (induction inp out outSize jj ns delim its rule: NameStringRead_loop.induct)
  case (1 out outSize jj nonSpace delim its)
  then show ?case by simp
next
  case (2 inCh cs out outSize jj ns delim its)
  note p1 = "2.prems"(1) and p3 = "2.prems"(2)
  show ?case
  proof (cases "inCh = delim")
    case True
    with p1 show ?thesis by auto
  next
    case nd: False
    note un = p1[unfolded dn_unescape_decode[OF nd]]
    show ?thesis
    proof (cases "outSize \<le> jj")
      case True
      with nd show ?thesis by simp
    next
      case jj': False
      show ?thesis
      proof (cases "decode_char inCh cs")
        case Stop
        with un show ?thesis by simp
      next
        case Bad
        with nd jj' show ?thesis by simp
      next
        case (Out outCh rest')
        with un have r: "dn_unescape delim rest' = None"
          by (auto simp del: dn_unescape.simps)
        have jj: "jj < length out" using jj' p3 by simp
        have len: "outSize \<le> length (out[jj := outCh])" using p3 by simp
        show ?thesis using "2.IH"[OF nd jj' Out jj r len] nd jj jj' Out by simp
      qed
    qed
  qed
qed


text \<open>
  C7 (as amended). Inside a component of a distinguished-name string whose decoded value
  fits the buffer it is read into (an array of at least the size stated, 256 bytes in the
  parser), a backslash followed by two hex digits decodes to the byte they denote; a
  backslash followed by a byte that is not a hex digit yields that byte, the backslash
  dropped; a backslash followed by a hex digit without a second hex digit after it is a
  parse error; a backslash that ends the input is dropped.  That is the rule
  \<open>dn_unescape\<close>.  The source's function fails where the rule fails, whatever the size of
  the buffer; where the rule gives a value that fits the buffer it leaves the decoded
  bytes at the start of the buffer, returns the input from the delimiter on, and reports
  the length (without the spaces at the end, when these are to be ignored); where the
  rule gives a value longer than the buffer it fails.  So \<open>CN=A\,B\<close> parses to the value
  \<open>A,B\<close> and \<open>CN=A\41B\<close> to \<open>AAB\<close>.  Nothing is said here of a backslash that ends the input
  after a value that fills the buffer exactly.
\<close>

theorem C7_escape_rule:
  assumes "outSize \<le> length out"
  shows
    "(dn_unescape delim inp = None \<longrightarrow>
        xmlSecOpenSSLX509NameStringRead inp out outSize delim its = Ret None)
     \<and> (\<forall>v rest. dn_unescape delim inp = Some (v, rest) \<and> length v \<le> outSize
                   \<and> \<not> (length v = outSize \<and> dn_dangling delim inp) \<longrightarrow>
          xmlSecOpenSSLX509NameStringRead inp out outSize delim its
            = Ret (Some (rest, v @ drop (length v) out,
                         if its then length (trim_right v) else length v)))
     \<and> (\<forall>v rest. dn_unescape delim inp = Some (v, rest) \<and> outSize < length v \<longrightarrow>
          xmlSecOpenSSLX509NameStringRead inp out outSize delim its = Ret None)
     \<and> xmlSecOpenSSLX509NameRead ex_lib (''CN=A'' @ [CHR 0x5C] @ '',B'')
         = Ret (Some [\<lparr>entry_object = ''CN'', entry_data = ''A,B''\<rparr>])
     \<and> xmlSecOpenSSLX509NameRead ex_lib (''CN=A'' @ [CHR 0x5C] @ ''41B'')
         = Ret (Some [\<lparr>entry_object = ''CN'', entry_data = ''AAB''\<rparr>])"
proof (intro conjI allI impI)
  assume "dn_unescape delim inp = None"
  from NameStringRead_loop_unescape_None[OF this assms]
  show "xmlSecOpenSSLX509NameStringRead inp out outSize delim its = Ret None"
    by (simp add: xmlSecOpenSSLX509NameStringRead_def)
next
  fix v rest
  assume a: "dn_unescape delim inp = Some (v, rest) \<and> length v \<le> outSize
                   \<and> \<not> (length v = outSize \<and> dn_dangling delim inp)"
  then have u: "dn_unescape delim inp = Some (v, rest)" and l: "0 + length v \<le> outSize"
    by simp_all
  have d: "\<not> dn_dangling delim inp" if "0 + length v = outSize"
    using a that by simp
  from NameStringRead_loop_unescape_fit[OF u l d assms, where ns = 0 and its = its]
  show "xmlSecOpenSSLX509NameStringRead inp out outSize delim its
            = Ret (Some (rest, v @ drop (length v) out,
                         if its then length (trim_right v) else length v))"
    by (simp add: xmlSecOpenSSLX509NameStringRead_def trim_right_all_space)
next
  fix v rest
  assume a: "dn_unescape delim inp = Some (v, rest) \<and> outSize < length v"
  then have "outSize < 0 + length v" by simp
  from NameStringRead_loop_unescape_long[OF conjunct1[OF a] this le0 assms, of 0 its]
  show "xmlSecOpenSSLX509NameStringRead inp out outSize delim its = Ret None"
    by (simp add: xmlSecOpenSSLX509NameStringRead_def)
next
  show "xmlSecOpenSSLX509NameRead ex_lib (''CN=A'' @ [CHR 0x5C] @ '',B'')
         = Ret (Some [\<lparr>entry_object = ''CN'', entry_data = ''A,B''\<rparr>])"
    by code_simp
next
  show "xmlSecOpenSSLX509NameRead ex_lib (''CN=A'' @ [CHR 0x5C] @ ''41B'')
         = Ret (Some [\<lparr>entry_object = ''CN'', entry_data = ''AAB''\<rparr>])"
    by code_simp
qed

text \<open>
  At concrete inputs: a value of four bytes with a hex escape, an escaped plus sign and a
  space before the comma, read into a buffer of 8 bytes, into one of 4 bytes and into one
  of 3 bytes.
\<close>

theorem C7_escape_rule_witness:
  "(8::nat) \<le> length (replicate 8 (CHR 0x00))
   \<and> dn_unescape (CHR '','') (''A'' @ [CHR 0x5C] @ ''41'' @ [CHR 0x5C] @ ''+ ,O=x'')
       = Some (''AA+ '', '',O=x'')
   \<and> xmlSecOpenSSLX509NameStringRead (''A'' @ [CHR 0x5C] @ ''41'' @ [CHR 0x5C] @ ''+ ,O=x'')
        (replicate 8 (CHR 0x00)) 8 (CHR '','') True
       = Ret (Some ('',O=x'', ''AA+ '' @ replicate 4 (CHR 0x00), 3))
   \<and> xmlSecOpenSSLX509NameStringRead (''A'' @ [CHR 0x5C] @ ''41'' @ [CHR 0x5C] @ ''+ ,O=x'')
        (replicate 4 (CHR 0x00)) 4 (CHR '','') True
       = Ret (Some ('',O=x'', ''AA+ '', 3))
   \<and> xmlSecOpenSSLX509NameStringRead (''A'' @ [CHR 0x5C] @ ''41'' @ [CHR 0x5C] @ ''+ ,O=x'')
        (replicate 3 (CHR 0x00)) 3 (CHR '','') True = Ret None"
proof -
  have h: "(8::nat) \<le> length (replicate 8 (CHR 0x00))"
    by simp
  have d: "dn_unescape (CHR '','') (''A'' @ [CHR 0x5C] @ ''41'' @ [CHR 0x5C] @ ''+ ,O=x'')
       = Some (''AA+ '', '',O=x'')"
    by code_simp
  have l: "length ''AA+ '' \<le> (8::nat) \<and> \<not> (length ''AA+ '' = (8::nat)
             \<and> dn_dangling (CHR '','') (''A'' @ [CHR 0x5C] @ ''41'' @ [CHR 0x5C] @ ''+ ,O=x''))"
    by simp
  have h4: "(4::nat) \<le> length (replicate 4 (CHR 0x00))"
    by simp
  have nd: "\<not> dn_dangling (CHR '','') (''A'' @ [CHR 0x5C] @ ''41'' @ [CHR 0x5C] @ ''+ ,O=x'')"
    by code_simp
  have l4: "length ''AA+ '' \<le> (4::nat) \<and> \<not> (length ''AA+ '' = (4::nat)
             \<and> dn_dangling (CHR '','') (''A'' @ [CHR 0x5C] @ ''41'' @ [CHR 0x5C] @ ''+ ,O=x''))"
    using nd by simp
  from C7_escape_rule[OF h4, of "CHR '',''" "''A'' @ [CHR 0x5C] @ ''41'' @ [CHR 0x5C] @ ''+ ,O=x''" True]
  have f4: "xmlSecOpenSSLX509NameStringRead (''A'' @ [CHR 0x5C] @ ''41'' @ [CHR 0x5C] @ ''+ ,O=x'')
        (replicate 4 (CHR 0x00)) 4 (CHR '','') True
       = Ret (Some ('',O=x'', ''AA+ '' @ drop (length ''AA+ '') (replicate 4 (CHR 0x00)),
                    if True then length (trim_right ''AA+ '') else length ''AA+ ''))"
    using d l4 by blast
  have t: "length (trim_right ''AA+ '') = 3"
    by code_simp
  from C7_escape_rule[OF h, of "CHR '',''" "''A'' @ [CHR 0x5C] @ ''41'' @ [CHR 0x5C] @ ''+ ,O=x''" True]
  have "xmlSecOpenSSLX509NameStringRead (''A'' @ [CHR 0x5C] @ ''41'' @ [CHR 0x5C] @ ''+ ,O=x'')
        (replicate 8 (CHR 0x00)) 8 (CHR '','') True
       = Ret (Some ('',O=x'', ''AA+ '' @ drop (length ''AA+ '') (replicate 8 (CHR 0x00)),
                    if True then length (trim_right ''AA+ '') else length ''AA+ ''))"
    using d l by blast
  moreover
  have h3: "(3::nat) \<le> length (replicate 3 (CHR 0x00))"
    by simp
  have l3: "(3::nat) < length ''AA+ ''"
    by simp
  from C7_escape_rule[OF h3, of "CHR '',''" "''A'' @ [CHR 0x5C] @ ''41'' @ [CHR 0x5C] @ ''+ ,O=x''" True]
  have "xmlSecOpenSSLX509NameStringRead (''A'' @ [CHR 0x5C] @ ''41'' @ [CHR 0x5C] @ ''+ ,O=x'')
        (replicate 3 (CHR 0x00)) 3 (CHR '','') True = Ret None"
    using d l3 by blast
  ultimately show ?thesis
    using h d t f4 by simp
qed

text \<open>
  The claim as it was stated lets a backslash followed by anything but two hex digits
  yield the next byte, in any value.  For a backslash followed by one hex digit and then
  another byte the source returns an error instead ("two hex digits expected"): \<open>CN=A\4Z\<close>
  does not parse.  And the source tests for room in the buffer before it looks at the
  byte: after 256 bytes that fill the buffer of the parser, a backslash that ends the
  input is not dropped but refused ("output buffer is too small").
\<close>

theorem C7_hex_digit_then_other_counterexample:
  "dn_unescape (CHR '','') (''A'' @ [CHR 0x5C] @ ''4Z'') = None
   \<and> xmlSecOpenSSLX509NameRead ex_lib (''CN=A'' @ [CHR 0x5C] @ ''4Z'') = Ret None
   \<and> dn_dangling (CHR '','') (replicate 256 (CHR ''A'') @ [CHR 0x5C])
   \<and> dn_unescape (CHR '','') (replicate 256 (CHR ''A'') @ [CHR 0x5C])
       = Some (replicate 256 (CHR ''A''), [])
   \<and> xmlSecOpenSSLX509NameStringRead (replicate 256 (CHR ''A'') @ [CHR 0x5C])
        (replicate 256 (CHR 0x00)) 256 (CHR '','') True = Ret None"
  by code_simp

section \<open>The equality of names\<close>

lemma char_diff_le_0_iff:
  "x \<noteq> y \<Longrightarrow> int (of_char x) - int (of_char y) \<le> 0 \<longleftrightarrow> x < y"
  by (simp add: less_le less_eq_char_def)

lemma char_diff_eq_0_iff:
  "int (of_char x) - int (of_char y) = 0 \<longleftrightarrow> x = y"
  by simp

lemma entry_eqI:
  fixes x y :: X509_NAME_ENTRY
  shows "entry_data x = entry_data y \<Longrightarrow> entry_object x = entry_object y \<Longrightarrow> x = y"
  by (cases x; cases y) simp

lemma entry_eq_iff:
  fixes x y :: X509_NAME_ENTRY
  shows "x = y \<longleftrightarrow> entry_data x = entry_data y \<and> entry_object x = entry_object y"
  by (cases x; cases y) auto

lemma memcmp_le_iff:
  "length xs = n \<Longrightarrow> length ys = n \<Longrightarrow> memcmp xs ys n \<le> 0 \<longleftrightarrow> xs \<le> ys"
proof (induction xs ys n rule: memcmp.induct)
  case (1 x xs y ys n)
  then show ?case
    using char_diff_le_0_iff[of x y] by (cases "x = y") (auto simp del: of_nat_of_char)
qed simp_all

lemma memcmp_eq_0_iff:
  "length xs = n \<Longrightarrow> length ys = n \<Longrightarrow> memcmp xs ys n = 0 \<longleftrightarrow> xs = ys"
proof (induction xs ys n rule: memcmp.induct)
  case (1 x xs y ys n)
  then show ?case
    using char_diff_eq_0_iff[of x y] by (cases "x = y") (auto simp del: of_nat_of_char)
qed simp_all

lemma OBJ_cmp_le_iff: "OBJ_cmp a b \<le> 0 \<longleftrightarrow> (length a, a) \<le> (length b, b)"
proof (cases "length a = length b")
  case True
  have "memcmp a b (length a) \<le> 0 \<longleftrightarrow> a \<le> b"
    by (rule memcmp_le_iff[OF refl True[symmetric]])
  then show ?thesis
    by (simp add: OBJ_cmp_def True)
next
  case False
  then show ?thesis by (auto simp: OBJ_cmp_def Let_def)
qed

lemma OBJ_cmp_eq_0_iff: "OBJ_cmp a b = 0 \<longleftrightarrow> a = b"
proof (cases "length a = length b")
  case True
  have "memcmp a b (length a) = 0 \<longleftrightarrow> a = b"
    by (rule memcmp_eq_0_iff[OF refl True[symmetric]])
  then show ?thesis
    by (simp add: OBJ_cmp_def True)
next
  case False
  then show ?thesis by (auto simp: OBJ_cmp_def Let_def)
qed

lemma ENTRY_cmp_unfold:
  "xmlSecOpenSSLX509_NAME_ENTRY_cmp a b =
     (if length (entry_data a) \<noteq> length (entry_data b)
      then int (length (entry_data a)) - int (length (entry_data b))
      else if memcmp (entry_data a) (entry_data b) (length (entry_data a)) \<noteq> 0
      then memcmp (entry_data a) (entry_data b) (length (entry_data a))
      else OBJ_cmp (entry_object a) (entry_object b))"
  by (auto simp: xmlSecOpenSSLX509_NAME_ENTRY_cmp_def X509_NAME_ENTRY_get_data_def
        X509_NAME_ENTRY_get_object_def Let_def)

lemma ENTRY_cmp_le_iff:
  "xmlSecOpenSSLX509_NAME_ENTRY_cmp a b \<le> 0 \<longleftrightarrow> entry_key a \<le> entry_key b"
proof (cases "length (entry_data a) = length (entry_data b)")
  case len: True
  note le = memcmp_le_iff[OF refl len[symmetric]]
  note eq = memcmp_eq_0_iff[OF refl len[symmetric]]
  show ?thesis
  proof (cases "entry_data a = entry_data b")
    case True
    with len eq show ?thesis
      by (simp add: ENTRY_cmp_unfold entry_key_def OBJ_cmp_le_iff)
  next
    case False
    with len eq le show ?thesis
      by (auto simp: ENTRY_cmp_unfold entry_key_def)
  qed
next
  case False
  then show ?thesis by (auto simp: ENTRY_cmp_unfold entry_key_def)
qed

lemma ENTRY_cmp_eq_0_iff:
  "xmlSecOpenSSLX509_NAME_ENTRY_cmp a b = 0 \<longleftrightarrow> a = b"
proof (cases "length (entry_data a) = length (entry_data b)")
  case len: True
  note eq = memcmp_eq_0_iff[OF refl len[symmetric]]
  show ?thesis
  proof (cases "entry_data a = entry_data b")
    case True
    with eq show ?thesis
      by (auto simp: ENTRY_cmp_unfold OBJ_cmp_eq_0_iff intro: entry_eqI)
  next
    case False
    with len eq show ?thesis
      by (auto simp: ENTRY_cmp_unfold)
  qed
next
  case False
  then show ?thesis by (auto simp: ENTRY_cmp_unfold)
qed

lemma sk_insert_insort:
  "sk_insert xmlSecOpenSSLX509_NAME_ENTRY_cmp x xs = insort_key entry_key x xs"
  by (induction xs) (simp_all add: ENTRY_cmp_le_iff)

lemma sk_sort_sort_key:
  "sk_sort xmlSecOpenSSLX509_NAME_ENTRY_cmp xs = sort_key entry_key xs"
  by (induction xs) (simp_all add: sk_sort_def sk_insert_insort)

lemma ENTRIES_cmp_loop_eq_0_iff:
  "length as = length bs \<Longrightarrow> ENTRIES_cmp_loop as bs = 0 \<longleftrightarrow> as = bs"
proof (induction as bs rule: list_induct2)
  case Nil
  then show ?case by simp
next
  case (Cons x xs y ys)
  then show ?case by (auto simp: Let_def ENTRY_cmp_eq_0_iff)
qed

lemma ENTRIES_cmp_eq_0_iff:
  "xmlSecOpenSSLX509_NAME_ENTRIES_cmp a b = 0 \<longleftrightarrow> a = b"
  by (auto simp: xmlSecOpenSSLX509_NAME_ENTRIES_cmp_def ENTRIES_cmp_loop_eq_0_iff)

lemma inj_entry_key: "inj_on entry_key A"
  by (rule inj_onI) (simp add: entry_key_def entry_eqI)

lemma sort_key_eq_iff_mset:
  assumes "inj f"
  shows "sort_key f xs = sort_key f ys \<longleftrightarrow> mset xs = mset ys"
proof
  assume "sort_key f xs = sort_key f ys"
  then have "mset (sort_key f xs) = mset (sort_key f ys)" by simp
  then show "mset xs = mset ys" by simp
next
  assume m: "mset xs = mset ys"
  show "sort_key f xs = sort_key f ys"
  proof (rule sort_key_inj_key_eq)
    show "mset xs = mset (sort_key f ys)" using m by simp
    show "inj_on f (set xs)" using assms by (rule inj_on_subset) simp
    show "sorted (map f (sort_key f ys))" by (rule sorted_sort_key)
  qed
qed

lemma NamesCompare_eq_0_iff_mset:
  "xmlSecOpenSSLX509NamesCompare a b = 0 \<longleftrightarrow> mset a = mset b"
proof -
  have i: "inj entry_key" by (rule inj_entry_key)
  have "xmlSecOpenSSLX509NamesCompare a b = 0
        \<longleftrightarrow> sort_key entry_key (rev a) = sort_key entry_key (rev b)"
    by (simp add: xmlSecOpenSSLX509NamesCompare_def Let_def ENTRIES_cmp_eq_0_iff
          sk_sort_sort_key xmlSecOpenSSLX509_NAME_ENTRIES_copy_def)
  also have "\<dots> \<longleftrightarrow> mset (rev a) = mset (rev b)"
    by (rule sort_key_eq_iff_mset[OF i])
  finally show ?thesis by simp
qed

lemma list_all2_spec_entry_equal: "list_all2 spec_entry_equal xs ys \<longleftrightarrow> xs = ys"
proof -
  have "spec_entry_equal = (=)"
    by (auto simp: fun_eq_iff spec_entry_equal_def entry_eq_iff)
  then show ?thesis by (simp add: list.rel_eq)
qed

lemma spec_names_equal_iff_mset: "spec_names_equal a b \<longleftrightarrow> mset a = mset b"
proof -
  let ?k = "\<lambda>e::X509_NAME_ENTRY. (entry_data e, entry_object e)"
  have i: "inj ?k"
    by (rule injI) (simp add: entry_eq_iff)
  have "spec_names_equal a b \<longleftrightarrow> sort_key ?k a = sort_key ?k b" (is "?L \<longleftrightarrow> ?R")
  proof
    assume ?L
    then show ?R
      by (simp add: spec_names_equal_def Let_def list_all2_spec_entry_equal)
  next
    assume r: ?R
    have "length (sort_key ?k a) = length (sort_key ?k b)"
      by (simp only: r)
    with r show ?L
      by (simp add: spec_names_equal_def Let_def list_all2_spec_entry_equal)
  qed
  also have "\<dots> \<longleftrightarrow> mset a = mset b"
    by (rule sort_key_eq_iff_mset[OF i])
  finally show ?thesis .
qed


text \<open>
  The library's sort may be any algorithm: whatever sorted arrangements of the two names
  are compared, the outcome is the same.
\<close>

lemma ENTRIES_cmp_any_sort:
  assumes "mset a1 = mset a" and "sorted_wrt (\<lambda>x y. xmlSecOpenSSLX509_NAME_ENTRY_cmp x y \<le> 0) a1"
    and "mset b1 = mset b" and "sorted_wrt (\<lambda>x y. xmlSecOpenSSLX509_NAME_ENTRY_cmp x y \<le> 0) b1"
  shows "xmlSecOpenSSLX509_NAME_ENTRIES_cmp a1 b1 = 0 \<longleftrightarrow> mset a = mset b"
proof -
  have sa: "sorted (map entry_key a1)" and sb: "sorted (map entry_key b1)"
    using assms(2,4) by (simp_all add: sorted_map ENTRY_cmp_le_iff)
  have a1: "sort_key entry_key a = a1"
    by (rule sort_key_inj_key_eq[OF assms(1)[symmetric] inj_entry_key sa])
  have b1: "sort_key entry_key b = b1"
    by (rule sort_key_inj_key_eq[OF assms(3)[symmetric] inj_entry_key sb])
  have "xmlSecOpenSSLX509_NAME_ENTRIES_cmp a1 b1 = 0 \<longleftrightarrow> a1 = b1"
    by (rule ENTRIES_cmp_eq_0_iff)
  also have "\<dots> \<longleftrightarrow> sort_key entry_key a = sort_key entry_key b"
    by (simp add: a1 b1)
  also have "\<dots> \<longleftrightarrow> mset a = mset b"
    by (rule sort_key_eq_iff_mset) (rule inj_entry_key)
  finally show ?thesis .
qed

text \<open>
  C8. The equality of names is reflexive and symmetric, and it does not depend on the
  order of the entries: two names compare equal exactly when they hold the same entries
  the same number of times.  It agrees with the spec's description: sort each name's
  entries by value bytes and then attribute type, and require the same length and
  pairwise the same value length, value bytes and attribute type.
\<close>

theorem C8_names_compare:
  "xmlSecOpenSSLX509NamesCompare a a = 0
   \<and> (xmlSecOpenSSLX509NamesCompare a b = 0 \<longleftrightarrow> xmlSecOpenSSLX509NamesCompare b a = 0)
   \<and> (xmlSecOpenSSLX509NamesCompare a b = 0 \<longleftrightarrow> spec_names_equal a b)
   \<and> (xmlSecOpenSSLX509NamesCompare a b = 0 \<longleftrightarrow> mset a = mset b)"
  by (auto simp: NamesCompare_eq_0_iff_mset spec_names_equal_iff_mset)


text \<open>
  The example of the spec: \<open>CN=A, O=B\<close> equals \<open>O=B, CN=A\<close>; it differs from the name that
  has the two values exchanged.
\<close>

theorem C8_names_compare_witness:
  "xmlSecOpenSSLX509NamesCompare
     [\<lparr>entry_object = ''CN'', entry_data = ''A''\<rparr>, \<lparr>entry_object = ''O'', entry_data = ''B''\<rparr>]
     [\<lparr>entry_object = ''O'', entry_data = ''B''\<rparr>, \<lparr>entry_object = ''CN'', entry_data = ''A''\<rparr>] = 0
   \<and> xmlSecOpenSSLX509NamesCompare
     [\<lparr>entry_object = ''CN'', entry_data = ''A''\<rparr>, \<lparr>entry_object = ''O'', entry_data = ''B''\<rparr>]
     [\<lparr>entry_object = ''CN'', entry_data = ''B''\<rparr>, \<lparr>entry_object = ''O'', entry_data = ''A''\<rparr>] \<noteq> 0"
proof -
  let ?a = "[\<lparr>entry_object = ''CN'', entry_data = ''A''\<rparr>, \<lparr>entry_object = ''O'', entry_data = ''B''\<rparr>]"
  let ?b = "[\<lparr>entry_object = ''O'', entry_data = ''B''\<rparr>, \<lparr>entry_object = ''CN'', entry_data = ''A''\<rparr>]"
  have m: "mset ?a = mset ?b"
    by (simp add: add_mset_commute)
  from C8_names_compare[of ?a ?b]
  have "xmlSecOpenSSLX509NamesCompare ?a ?b = 0 \<longleftrightarrow> mset ?a = mset ?b"
    by blast
  with m have 1: "xmlSecOpenSSLX509NamesCompare ?a ?b = 0"
    by blast
  have 2: "xmlSecOpenSSLX509NamesCompare ?a
     [\<lparr>entry_object = ''CN'', entry_data = ''B''\<rparr>, \<lparr>entry_object = ''O'', entry_data = ''A''\<rparr>] \<noteq> 0"
    by code_simp
  from 1 2 show ?thesis by blast
qed

section \<open>The serial number and the lookup by issuer and serial\<close>

lemma byte_unat:
  fixes ui :: "64 word"
  shows "unat (ucast (drop_bit k ui) :: 8 word) = (unat ui div 2 ^ k) mod 256"
  apply (simp only: unsigned_ucast_eq unat_drop_bit_eq take_bit_eq_mod)
  apply (simp add: drop_bit_eq_div)
  done

lemma byte_unat0:
  fixes ui :: "64 word"
  shows "unat (ucast ui :: 8 word) = unat ui mod 256"
  by (simp only: unsigned_ucast_eq take_bit_eq_mod) simp

lemma horner8:
  fixes n :: nat
  assumes "n < 2 ^ 64"
  shows "(((((((n div 2 ^ 56 mod 256) * 256 + n div 2 ^ 48 mod 256) * 256
          + n div 2 ^ 40 mod 256) * 256 + n div 2 ^ 32 mod 256) * 256
          + n div 2 ^ 24 mod 256) * 256 + n div 2 ^ 16 mod 256) * 256
          + n div 2 ^ 8 mod 256) * 256 + n mod 256 = n"
proof -
  define m1 where "m1 = n div 256"
  define m2 where "m2 = m1 div 256"
  define m3 where "m3 = m2 div 256"
  define m4 where "m4 = m3 div 256"
  define m5 where "m5 = m4 div 256"
  define m6 where "m6 = m5 div 256"
  define m7 where "m7 = m6 div 256"
  have e1: "n div 2 ^ 8 = m1" by (simp add: m1_def)
  have e2: "n div 2 ^ 16 = m2"
    using div_mult2_eq[of n "2 ^ 8" 256] by (simp add: m2_def e1[symmetric])
  have e3: "n div 2 ^ 24 = m3"
    using div_mult2_eq[of n "2 ^ 16" 256] by (simp add: m3_def e2[symmetric])
  have e4: "n div 2 ^ 32 = m4"
    using div_mult2_eq[of n "2 ^ 24" 256] by (simp add: m4_def e3[symmetric])
  have e5: "n div 2 ^ 40 = m5"
    using div_mult2_eq[of n "2 ^ 32" 256] by (simp add: m5_def e4[symmetric])
  have e6: "n div 2 ^ 48 = m6"
    using div_mult2_eq[of n "2 ^ 40" 256] by (simp add: m6_def e5[symmetric])
  have e7: "n div 2 ^ 56 = m7"
    using div_mult2_eq[of n "2 ^ 48" 256] by (simp add: m7_def e6[symmetric])
  have "n div 2 ^ 56 < 256"
    using assms by (simp add: less_mult_imp_div_less)
  then have "m7 < 256" unfolding e7 .
  then have k7: "m7 mod 256 = m7" by simp
  have k6: "m7 * 256 + m6 mod 256 = m6" by (simp add: m7_def)
  have k5: "m6 * 256 + m5 mod 256 = m5" by (simp add: m6_def)
  have k4: "m5 * 256 + m4 mod 256 = m4" by (simp add: m5_def)
  have k3: "m4 * 256 + m3 mod 256 = m3" by (simp add: m4_def)
  have k2: "m3 * 256 + m2 mod 256 = m2" by (simp add: m3_def)
  have k1: "m2 * 256 + m1 mod 256 = m1" by (simp add: m2_def)
  have k0: "m1 * 256 + n mod 256 = n" by (simp add: m1_def)
  show ?thesis
    by (simp only: e1 e2 e3 e4 e5 e6 e7 k7 k6 k5 k4 k3 k2 k1 k0)
qed

lemma be_value_bytes:
  fixes ui :: "64 word"
  shows "be_value [ucast (drop_bit 56 ui), ucast (drop_bit 48 ui), ucast (drop_bit 40 ui),
                ucast (drop_bit 32 ui), ucast (drop_bit 24 ui), ucast (drop_bit 16 ui),
                ucast (drop_bit 8 ui), ucast ui] = unat ui"
proof -
  have lt: "unat ui < 2 ^ 64"
    using unsigned_less[of ui] by simp
  show ?thesis
    apply (simp only: be_value_def foldl.simps mult_zero_left add_0 byte_unat0 unat_drop_bit_eq)
    apply (simp only: drop_bit_eq_div horner8[OF lt])
    done
qed


lemma NumToItem_zeros_takeWhile:
  "1 \<le> k \<Longrightarrow> k \<le> Suc (length bs) \<Longrightarrow>
   NumToItem_zeros (0 # bs) (Suc (length bs)) k
     = k + length (takeWhile (\<lambda>b. b = 0) (drop (k - 1) bs))"
proof (induction "Suc (length bs) - k" arbitrary: k)
  case 0
  then have k: "k = Suc (length bs)" by simp
  show ?case
    by (subst NumToItem_zeros.simps) (simp add: k)
next
  case (Suc n)
  then have lt: "k < Suc (length bs)" and k1: "k - 1 < length bs" by simp_all
  have d: "drop (k - 1) bs = bs ! (k - 1) # drop k bs"
    using Cons_nth_drop_Suc[OF k1] Suc.prems(1) by simp
  have n: "(0 # bs) ! k = bs ! (k - 1)"
    using Suc.prems(1) by (cases k) simp_all
  show ?case
  proof (cases "bs ! (k - 1) = 0")
    case z: True
    have "NumToItem_zeros (0 # bs) (Suc (length bs)) k
          = NumToItem_zeros (0 # bs) (Suc (length bs)) (k + 1)"
      using lt z n by (subst NumToItem_zeros.simps) simp
    also have "\<dots> = k + 1 + length (takeWhile (\<lambda>b. b = 0) (drop (k + 1 - 1) bs))"
      using Suc.hyps(1)[of "k + 1"] Suc.hyps(2) lt by simp
    finally show ?thesis using d z by simp
  next
    case False
    show ?thesis
      using lt n d False by (subst NumToItem_zeros.simps) simp
  qed
qed

lemma drop_leading_zeros:
  "drop (length (takeWhile (\<lambda>b. b = 0) bs)) ((0::8 word) # bs)
     = (if list_all (\<lambda>b. b = 0) bs then [0] else 0 # dropWhile (\<lambda>b. b = 0) bs)"
  by (induction bs) auto

lemma be_value_zero_Cons: "be_value (0 # bs) = be_value bs"
  by (simp add: be_value_def)

lemma be_value_dropWhile: "be_value (dropWhile (\<lambda>b. b = 0) bs) = be_value bs"
  by (induction bs) (simp_all add: be_value_zero_Cons)

lemma be_value_all_zero: "list_all (\<lambda>b. b = 0) bs \<Longrightarrow> be_value bs = 0"
  by (induction bs) (simp_all add: be_value_zero_Cons, simp add: be_value_def)

lemma NumToItem_eq:
  "xmlSecNssNumToItem ui =
     (if ui = 0 then ([0], 1)
      else (0 # dropWhile (\<lambda>b. b = 0) (ui_bytes ui),
            int (length (dropWhile (\<lambda>b. b = 0) (ui_bytes ui))) + 1))"
proof -
  let ?bs = "ui_bytes ui"
  let ?z = "length (takeWhile (\<lambda>b. b = 0) ?bs)"
  have len: "length ?bs = 8" by (simp add: ui_bytes_def)
  have zl: "NumToItem_zeros (0 # ?bs) (Suc (length ?bs)) 1 = 1 + ?z"
    using NumToItem_zeros_takeWhile[of 1 ?bs] by simp
  have zle: "?z \<le> 8" using length_takeWhile_le[of "\<lambda>b. b = 0" ?bs] len by simp
  have v: "be_value ?bs = unat ui"
    unfolding ui_bytes_def by (rule be_value_bytes)
  have all0: "list_all (\<lambda>b. b = 0) ?bs \<longleftrightarrow> ui = 0"
  proof
    assume "list_all (\<lambda>b. b = 0) ?bs"
    from be_value_all_zero[OF this] v show "ui = 0" by (simp add: unat_0_iff)
  next
    assume "ui = 0"
    then show "list_all (\<lambda>b. b = 0) ?bs" by (simp add: ui_bytes_def)
  qed
  have "xmlSecNssNumToItem ui = (take (9 - ?z) (drop ?z (0 # ?bs)), int (9 - ?z))"
    using zl len unfolding xmlSecNssNumToItem_def ui_bytes_def[symmetric] Let_def
    by simp
  also have "take (9 - ?z) (drop ?z (0 # ?bs)) = drop ?z (0 # ?bs)"
    using len by simp
  finally have e: "xmlSecNssNumToItem ui = (drop ?z (0 # ?bs), int (9 - ?z))" .
  have l: "length (dropWhile (\<lambda>b. b = 0) ?bs) = 8 - ?z"
    using len length_append[of "takeWhile (\<lambda>b. b = 0) ?bs" "dropWhile (\<lambda>b. b = 0) ?bs"]
    by simp
  show ?thesis
  proof (cases "ui = 0")
    case True
    then have "?z = 8" by (simp add: ui_bytes_def)
    with e True all0 show ?thesis
      by (simp add: drop_leading_zeros)
  next
    case False
    with all0 have "\<not> list_all (\<lambda>b. b = 0) ?bs" by simp
    then have "dropWhile (\<lambda>b. b = 0) ?bs \<noteq> []"
      by (simp add: dropWhile_eq_Nil_conv list_all_iff)
    then have "?z < 8"
      using l zle by (cases "?z = 8") auto
    with e False all0 l zle show ?thesis
      by (simp add: drop_leading_zeros)
  qed
qed

lemma ASN1_INTEGER_cmp_eq_0_iff: "ASN1_INTEGER_cmp a b = 0 \<longleftrightarrow> a = b"
  by (simp add: ASN1_INTEGER_cmp_def)

lemma FindCert_issuerSerial_eq:
  assumes "xmlSecOpenSSLX509NameRead lib iname = Ret (Some nm)"
    and "BN_dec2bn lib iserial = Some serial"
  shows "FindCert_issuerSerial lib certs (Some iname) (Some iserial) =
     Ret (case find (\<lambda>cert. serialNumber cert = serial \<and> mset (issuer_name cert) = mset nm) certs of
            Some cert \<Rightarrow> Returned (Some cert) | None \<Rightarrow> Fallthrough)"
proof -
  have f: "find (\<lambda>cert. ASN1_INTEGER_cmp (serialNumber cert) serial = 0
               \<and> xmlSecOpenSSLX509NamesCompare nm (issuer_name cert) = 0) certs
        = find (\<lambda>cert. serialNumber cert = serial \<and> mset (issuer_name cert) = mset nm) certs"
    by (rule find_cong)
       (auto simp: ASN1_INTEGER_cmp_eq_0_iff NamesCompare_eq_0_iff_mset)
  show ?thesis
    by (simp add: FindCert_issuerSerial_def assms f split: option.splits)
qed

text \<open>
  C6 (as amended). The NSS lookup encodes the serial, read as an unsigned 64-bit number,
  most significant byte first as one zero byte followed by the bytes of the number from
  its first non-zero byte on (so by its shortest unsigned form), and the number 0 as the
  single byte 0: the zero byte is always prefixed, whether or not the most significant
  bit of the first significant byte is set.  In the OpenSSL lookup by issuer and serial,
  the candidate returned is the first one whose serial equals the parsed serial and
  whose issuer has the same entries as the parsed issuer name; without such a candidate
  (and without a SKI) the result is NULL.
\<close>

theorem C6_serial_encoding_and_match:
  "(ui \<noteq> 0 \<longrightarrow>
      (\<exists>ms. xmlSecNssNumToItem ui = (0 # ms, int (length ms) + 1)
            \<and> ms \<noteq> [] \<and> hd ms \<noteq> 0 \<and> be_value ms = unat ui))
   \<and> xmlSecNssNumToItem 0 = ([0], 1)
   \<and> (\<forall>nm serial.
         xmlSecOpenSSLX509NameRead lib iname = Ret (Some nm) \<and> BN_dec2bn lib iserial = Some serial
         \<longrightarrow> xmlSecOpenSSLX509FindCert lib certs None (Some iname) (Some iserial) None skiSize
               = Ret (find (\<lambda>cert. serialNumber cert = serial
                                   \<and> mset (issuer_name cert) = mset nm) certs))"
proof (intro conjI impI allI)
  assume nz: "ui \<noteq> 0"
  let ?ms = "dropWhile (\<lambda>b. b = 0) (ui_bytes ui)"
  have "be_value ?ms = be_value (ui_bytes ui)"
    by (rule be_value_dropWhile)
  also have "\<dots> = unat ui"
    unfolding ui_bytes_def by (rule be_value_bytes)
  finally have v: "be_value ?ms = unat ui" .
  have ne: "?ms \<noteq> []"
  proof
    assume "?ms = []"
    with v have "unat ui = 0" by (simp add: be_value_def)
    with nz show False by (simp add: unat_0_iff)
  qed
  have "hd ?ms \<noteq> 0"
    using hd_dropWhile[OF ne] by simp
  with v ne nz show "\<exists>ms. xmlSecNssNumToItem ui = (0 # ms, int (length ms) + 1)
            \<and> ms \<noteq> [] \<and> hd ms \<noteq> 0 \<and> be_value ms = unat ui"
    by (intro exI[of _ ?ms]) (simp add: NumToItem_eq)
next
  show "xmlSecNssNumToItem 0 = ([0], 1)"
    by (simp add: NumToItem_eq)
next
  fix nm serial
  assume a: "xmlSecOpenSSLX509NameRead lib iname = Ret (Some nm) \<and> BN_dec2bn lib iserial = Some serial"
  show "xmlSecOpenSSLX509FindCert lib certs None (Some iname) (Some iserial) None skiSize
               = Ret (find (\<lambda>cert. serialNumber cert = serial
                                   \<and> mset (issuer_name cert) = mset nm) certs)"
    using FindCert_issuerSerial_eq[OF conjunct1[OF a] conjunct2[OF a], of certs]
    by (simp add: xmlSecOpenSSLX509FindCert_def FindCert_subject_def FindCert_ski_def
          split: option.splits)
qed

text \<open>
  At concrete inputs: the number 128, whose first significant byte has its most
  significant bit set, and a lookup of the issuer \<open>CN=Root\<close> with serial 5 among three
  certificates.
\<close>

theorem C6_serial_encoding_and_match_witness:
  "(128 :: 64 word) \<noteq> 0
   \<and> xmlSecNssNumToItem 128 = ([0, 128], 2)
   \<and> xmlSecOpenSSLX509NameRead ex_lib ''CN=Root'' = Ret (Some (ex_name ''Root''))
   \<and> BN_dec2bn ex_lib ''5'' = Some 5
   \<and> xmlSecOpenSSLX509FindCert ex_lib [ex_root, ex_cert6, ex_cert5] None (Some ''CN=Root'')
        (Some ''5'') None 0 = Ret (Some ex_cert5)"
proof -
  have n: "xmlSecNssNumToItem 128 = ([0, 128], 2)"
    by code_simp
  have p: "xmlSecOpenSSLX509NameRead ex_lib ''CN=Root'' = Ret (Some (ex_name ''Root''))"
    by code_simp
  have b: "BN_dec2bn ex_lib ''5'' = Some 5"
    by code_simp
  have f: "find (\<lambda>cert. serialNumber cert = 5 \<and> mset (issuer_name cert) = mset (ex_name ''Root''))
             [ex_root, ex_cert6, ex_cert5] = Some ex_cert5"
    by (simp add: ex_root_def ex_cert6_def ex_cert5_def ex_cert_def)
  from C6_serial_encoding_and_match[of 128 ex_lib "''CN=Root''" "''5''" "[ex_root, ex_cert6, ex_cert5]" 0]
  have "xmlSecOpenSSLX509FindCert ex_lib [ex_root, ex_cert6, ex_cert5] None (Some ''CN=Root'')
        (Some ''5'') None 0
        = Ret (find (\<lambda>cert. serialNumber cert = 5 \<and> mset (issuer_name cert) = mset (ex_name ''Root''))
             [ex_root, ex_cert6, ex_cert5])"
    using p b by blast
  with n p b f show ?thesis by simp
qed

text \<open>
  The claim as it was stated has the zero byte prefixed exactly when the most significant
  bit of the first significant byte is set, so that 5 would be the single byte 05.  The
  source gives two bytes.
\<close>

theorem C6_small_serial_counterexample:
  "xmlSecNssNumToItem 5 = ([0, 5], 2)"
  by code_simp

section \<open>The order of the lookup criteria\<close>

lemma memcmp_eq_0_take:
  "length keyId = n \<Longrightarrow> n \<le> length s \<Longrightarrow> memcmp keyId s n = 0 \<longleftrightarrow> keyId = take n s"
proof (induction keyId s n rule: memcmp.induct)
  case (1 x xs y ys n)
  then show ?case
    using char_diff_eq_0_iff[of x y] by (cases "x = y") (auto simp del: of_nat_of_char)
qed simp_all

lemma FindCert_ski_eq:
  assumes "0 < skiSize" and "skiSize \<le> length s" and "int skiSize \<le> 2147483647"
  shows "FindCert_ski certs (Some s) skiSize
         = find (\<lambda>cert. subject_key_identifier cert = Some (take skiSize s)) certs"
proof -
  have "find (\<lambda>cert. case subject_key_identifier cert of
                       None \<Rightarrow> False
                     | Some keyId \<Rightarrow> length keyId = skiSize \<and> memcmp keyId s skiSize = 0) certs
        = find (\<lambda>cert. subject_key_identifier cert = Some (take skiSize s)) certs"
    using assms(2)
    by (intro find_cong) (auto simp: memcmp_eq_0_take split: option.splits)
  with assms show ?thesis by (simp add: FindCert_ski_def)
qed

lemma FindCert_subject_eq:
  assumes "xmlSecOpenSSLX509NameRead lib sn = Ret (Some nm)"
  shows "FindCert_subject lib certs (Some sn) =
     Ret (case find (\<lambda>cert. mset (subject_name cert) = mset nm) certs of
            Some cert \<Rightarrow> Returned (Some cert) | None \<Rightarrow> Fallthrough)"
proof -
  have f: "find (\<lambda>cert. xmlSecOpenSSLX509NamesCompare nm (subject_name cert) = 0) certs
        = find (\<lambda>cert. mset (subject_name cert) = mset nm) certs"
    by (rule find_cong) (auto simp: NamesCompare_eq_0_iff_mset)
  show ?thesis
    by (simp add: FindCert_subject_def assms f split: option.splits)
qed

text \<open>
  C5 (as amended). \<open>xmlSecOpenSSLX509FindCert\<close> tries its three criteria in a fixed order,
  and the first that finds a certificate decides the result.  If the subject name is
  given and parses, the first candidate whose subject has the same entries is returned,
  whatever the other criteria are; if it finds no candidate, the search goes on as if no
  subject name had been given; a subject name that does not parse ends the search with
  NULL.  Next, if both the issuer name and the issuer serial are given, the lookup by
  issuer and serial is used in the same way: the first candidate with that serial and an
  issuer of the same entries is returned, the search falls through to the SKI when there
  is none, and an issuer name or a serial that does not parse ends the search with NULL;
  with only one of the two the lookup is skipped.  Last, a SKI that is not empty (and
  whose size fits an \<open>int\<close>) is matched byte by byte against the candidates' subject key
  identifiers; without a SKI, or with an empty one, the result is NULL.  With no criterion
  at all the result is NULL, without an error being raised.
\<close>

theorem C5_find_cert_precedence:
  "(\<forall>nm c. xmlSecOpenSSLX509NameRead lib sn = Ret (Some nm)
            \<and> find (\<lambda>cert. mset (subject_name cert) = mset nm) certs = Some c
       \<longrightarrow> xmlSecOpenSSLX509FindCert lib certs (Some sn) issuerName issuerSerial ski skiSize
             = Ret (Some c))
   \<and> (\<forall>nm. xmlSecOpenSSLX509NameRead lib sn = Ret (Some nm)
            \<and> find (\<lambda>cert. mset (subject_name cert) = mset nm) certs = None
       \<longrightarrow> xmlSecOpenSSLX509FindCert lib certs (Some sn) issuerName issuerSerial ski skiSize
             = xmlSecOpenSSLX509FindCert lib certs None issuerName issuerSerial ski skiSize)
   \<and> (xmlSecOpenSSLX509NameRead lib sn = Ret None
       \<longrightarrow> xmlSecOpenSSLX509FindCert lib certs (Some sn) issuerName issuerSerial ski skiSize
             = Ret None)
   \<and> (\<forall>nm serial c. xmlSecOpenSSLX509NameRead lib iname = Ret (Some nm)
            \<and> BN_dec2bn lib iserial = Some serial
            \<and> find (\<lambda>cert. serialNumber cert = serial \<and> mset (issuer_name cert) = mset nm) certs
                = Some c
       \<longrightarrow> xmlSecOpenSSLX509FindCert lib certs None (Some iname) (Some iserial) ski skiSize
             = Ret (Some c))
   \<and> (\<forall>nm serial. xmlSecOpenSSLX509NameRead lib iname = Ret (Some nm)
            \<and> BN_dec2bn lib iserial = Some serial
            \<and> find (\<lambda>cert. serialNumber cert = serial \<and> mset (issuer_name cert) = mset nm) certs
                = None
       \<longrightarrow> xmlSecOpenSSLX509FindCert lib certs None (Some iname) (Some iserial) ski skiSize
             = xmlSecOpenSSLX509FindCert lib certs None None None ski skiSize)
   \<and> (issuerName = None \<or> issuerSerial = None
       \<longrightarrow> xmlSecOpenSSLX509FindCert lib certs None issuerName issuerSerial ski skiSize
             = xmlSecOpenSSLX509FindCert lib certs None None None ski skiSize)
   \<and> (\<forall>s. 0 < skiSize \<and> skiSize \<le> length s \<and> int skiSize \<le> 2147483647
       \<longrightarrow> xmlSecOpenSSLX509FindCert lib certs None None None (Some s) skiSize
             = Ret (find (\<lambda>cert. subject_key_identifier cert = Some (take skiSize s)) certs))
   \<and> xmlSecOpenSSLX509FindCert lib certs None None None None skiSize = Ret None
   \<and> (xmlSecOpenSSLX509NameRead lib iname = Ret None
       \<longrightarrow> xmlSecOpenSSLX509FindCert lib certs None (Some iname) (Some iserial) ski skiSize
             = Ret None)
   \<and> (\<forall>nm. xmlSecOpenSSLX509NameRead lib iname = Ret (Some nm) \<and> BN_dec2bn lib iserial = None
       \<longrightarrow> xmlSecOpenSSLX509FindCert lib certs None (Some iname) (Some iserial) ski skiSize
             = Ret None)
   \<and> (ski = None \<or> skiSize = 0 \<or> 2147483647 < int skiSize
       \<longrightarrow> xmlSecOpenSSLX509FindCert lib certs None None None ski skiSize = Ret None)"
proof (intro conjI allI impI)
  fix nm c
  assume a: "xmlSecOpenSSLX509NameRead lib sn = Ret (Some nm)
            \<and> find (\<lambda>cert. mset (subject_name cert) = mset nm) certs = Some c"
  show "xmlSecOpenSSLX509FindCert lib certs (Some sn) issuerName issuerSerial ski skiSize
             = Ret (Some c)"
    using a FindCert_subject_eq[of lib sn nm certs]
    by (simp add: xmlSecOpenSSLX509FindCert_def)
next
  fix nm
  assume a: "xmlSecOpenSSLX509NameRead lib sn = Ret (Some nm)
            \<and> find (\<lambda>cert. mset (subject_name cert) = mset nm) certs = None"
  show "xmlSecOpenSSLX509FindCert lib certs (Some sn) issuerName issuerSerial ski skiSize
             = xmlSecOpenSSLX509FindCert lib certs None issuerName issuerSerial ski skiSize"
    using a FindCert_subject_eq[of lib sn nm certs]
    by (simp add: xmlSecOpenSSLX509FindCert_def FindCert_subject_def)
next
  assume "xmlSecOpenSSLX509NameRead lib sn = Ret None"
  then show "xmlSecOpenSSLX509FindCert lib certs (Some sn) issuerName issuerSerial ski skiSize
             = Ret None"
    by (simp add: xmlSecOpenSSLX509FindCert_def FindCert_subject_def)
next
  fix nm serial c
  assume a: "xmlSecOpenSSLX509NameRead lib iname = Ret (Some nm)
            \<and> BN_dec2bn lib iserial = Some serial
            \<and> find (\<lambda>cert. serialNumber cert = serial \<and> mset (issuer_name cert) = mset nm) certs
                = Some c"
  then have 1: "xmlSecOpenSSLX509NameRead lib iname = Ret (Some nm)"
    and 2: "BN_dec2bn lib iserial = Some serial" by simp_all
  show "xmlSecOpenSSLX509FindCert lib certs None (Some iname) (Some iserial) ski skiSize
             = Ret (Some c)"
    using a FindCert_issuerSerial_eq[OF 1 2, of certs]
    by (simp add: xmlSecOpenSSLX509FindCert_def FindCert_subject_def)
next
  fix nm serial
  assume a: "xmlSecOpenSSLX509NameRead lib iname = Ret (Some nm)
            \<and> BN_dec2bn lib iserial = Some serial
            \<and> find (\<lambda>cert. serialNumber cert = serial \<and> mset (issuer_name cert) = mset nm) certs
                = None"
  then have 1: "xmlSecOpenSSLX509NameRead lib iname = Ret (Some nm)"
    and 2: "BN_dec2bn lib iserial = Some serial" by simp_all
  show "xmlSecOpenSSLX509FindCert lib certs None (Some iname) (Some iserial) ski skiSize
             = xmlSecOpenSSLX509FindCert lib certs None None None ski skiSize"
    using a FindCert_issuerSerial_eq[OF 1 2, of certs]
    by (simp add: xmlSecOpenSSLX509FindCert_def FindCert_subject_def FindCert_issuerSerial_def)
next
  assume "issuerName = None \<or> issuerSerial = None"
  then show "xmlSecOpenSSLX509FindCert lib certs None issuerName issuerSerial ski skiSize
             = xmlSecOpenSSLX509FindCert lib certs None None None ski skiSize"
    by (auto simp: xmlSecOpenSSLX509FindCert_def FindCert_subject_def FindCert_issuerSerial_def
             split: option.splits)
next
  fix s :: "xmlSecByte list"
  assume "0 < skiSize \<and> skiSize \<le> length s \<and> int skiSize \<le> 2147483647"
  then show "xmlSecOpenSSLX509FindCert lib certs None None None (Some s) skiSize
             = Ret (find (\<lambda>cert. subject_key_identifier cert = Some (take skiSize s)) certs)"
    using FindCert_ski_eq[of skiSize s certs]
    by (simp add: xmlSecOpenSSLX509FindCert_def FindCert_subject_def FindCert_issuerSerial_def)
next
  show "xmlSecOpenSSLX509FindCert lib certs None None None None skiSize = Ret None"
    by (simp add: xmlSecOpenSSLX509FindCert_def FindCert_subject_def FindCert_issuerSerial_def
          FindCert_ski_def)
next
  assume "xmlSecOpenSSLX509NameRead lib iname = Ret None"
  then show "xmlSecOpenSSLX509FindCert lib certs None (Some iname) (Some iserial) ski skiSize
             = Ret None"
    by (simp add: xmlSecOpenSSLX509FindCert_def FindCert_subject_def FindCert_issuerSerial_def)
next
  fix nm
  assume "xmlSecOpenSSLX509NameRead lib iname = Ret (Some nm) \<and> BN_dec2bn lib iserial = None"
  then show "xmlSecOpenSSLX509FindCert lib certs None (Some iname) (Some iserial) ski skiSize
             = Ret None"
    by (simp add: xmlSecOpenSSLX509FindCert_def FindCert_subject_def FindCert_issuerSerial_def)
next
  assume "ski = None \<or> skiSize = 0 \<or> 2147483647 < int skiSize"
  then show "xmlSecOpenSSLX509FindCert lib certs None None None ski skiSize = Ret None"
    by (auto simp: xmlSecOpenSSLX509FindCert_def FindCert_subject_def FindCert_issuerSerial_def
          FindCert_ski_def split: option.splits)
qed

text \<open>
  At concrete inputs: a subject name that matches the second candidate wins over a SKI
  that matches the first; the SKI alone finds the first candidate; a SKI that no
  candidate carries finds nothing; a serial that does not parse ends the search although
  the SKI given with it matches; an empty SKI finds nothing.
\<close>

theorem C5_find_cert_precedence_witness:
  "xmlSecOpenSSLX509NameRead ex_lib ''CN=Leaf5'' = Ret (Some (ex_name ''Leaf5''))
   \<and> find (\<lambda>cert. mset (subject_name cert) = mset (ex_name ''Leaf5'')) [ex_cert_ski, ex_cert5]
       = Some ex_cert5
   \<and> xmlSecOpenSSLX509FindCert ex_lib [ex_cert_ski, ex_cert5] (Some ''CN=Leaf5'') None None
        (Some [CHR 0xAA, CHR 0xBB]) 2 = Ret (Some ex_cert5)
   \<and> xmlSecOpenSSLX509FindCert ex_lib [ex_cert_ski, ex_cert5] None None None
        (Some [CHR 0xAA, CHR 0xBB]) 2 = Ret (Some ex_cert_ski)
   \<and> xmlSecOpenSSLX509FindCert ex_lib [ex_cert_ski, ex_cert5] None None None
        (Some [CHR 0xCC]) 1 = Ret None
   \<and> xmlSecOpenSSLX509FindCert ex_lib [ex_cert_ski, ex_cert5] None (Some ''CN=Root'')
        (Some ''x7'') (Some [CHR 0xAA, CHR 0xBB]) 2 = Ret None
   \<and> xmlSecOpenSSLX509FindCert ex_lib [ex_cert_ski, ex_cert5] None None None (Some []) 0
       = Ret None"
proof -
  have p: "xmlSecOpenSSLX509NameRead ex_lib ''CN=Leaf5'' = Ret (Some (ex_name ''Leaf5''))"
    by code_simp
  have f: "find (\<lambda>cert. mset (subject_name cert) = mset (ex_name ''Leaf5'')) [ex_cert_ski, ex_cert5]
       = Some ex_cert5"
    by (simp add: ex_cert_ski_def ex_cert5_def ex_cert_def ex_name_def)
  note t = C5_find_cert_precedence[of ex_lib "''CN=Leaf5''" "[ex_cert_ski, ex_cert5]" None None
      "Some [CHR 0xAA, CHR 0xBB]" 2]
  from t p f have 1: "xmlSecOpenSSLX509FindCert ex_lib [ex_cert_ski, ex_cert5] (Some ''CN=Leaf5'')
        None None (Some [CHR 0xAA, CHR 0xBB]) 2 = Ret (Some ex_cert5)"
    by blast
  have 2: "xmlSecOpenSSLX509FindCert ex_lib [ex_cert_ski, ex_cert5] None None None
        (Some [CHR 0xAA, CHR 0xBB]) 2 = Ret (Some ex_cert_ski)"
    by code_simp
  have 3: "xmlSecOpenSSLX509FindCert ex_lib [ex_cert_ski, ex_cert5] None None None
        (Some [CHR 0xCC]) 1 = Ret None"
    by code_simp
  have 4: "xmlSecOpenSSLX509FindCert ex_lib [ex_cert_ski, ex_cert5] None (Some ''CN=Root'')
        (Some ''x7'') (Some [CHR 0xAA, CHR 0xBB]) 2 = Ret None"
    by code_simp
  have 5: "xmlSecOpenSSLX509FindCert ex_lib [ex_cert_ski, ex_cert5] None None None (Some []) 0
       = Ret None"
    by code_simp
  from p f 1 2 3 4 5 show ?thesis by blast
qed

text \<open>
  The claim as it was stated lets a given subject name decide the result alone, and uses
  the other criteria only when it is absent.  In the source a subject name that matches
  no candidate does not end the search: the SKI, or the issuer and serial, given with it
  are then tried, and their match is returned.
\<close>

theorem C5_subject_miss_falls_through_counterexample:
  "xmlSecOpenSSLX509FindCert ex_lib [ex_cert_ski, ex_cert5] (Some ''CN=Nobody'') None None
        (Some [CHR 0xAA, CHR 0xBB]) 2 = Ret (Some ex_cert_ski)
   \<and> xmlSecOpenSSLX509FindCert ex_lib [ex_cert_ski, ex_cert5] (Some ''CN=Nobody'') None None
        None 0 = Ret None
   \<and> xmlSecOpenSSLX509FindCert ex_lib [ex_cert_ski, ex_cert5] (Some ''CN=Nobody'')
        (Some ''CN=Root'') (Some ''5'') None 0 = Ret (Some ex_cert5)"
  by code_simp

section \<open>The certificates that start a verification\<close>

text \<open>
  Whatever the hash of the library is, candidates that have the subject name of a
  certificate never give a next certificate up the chain for it.
\<close>

lemma FindNextChainCert_loop_skip:
  "X509_NAME_hash_ex lib (subject_name c) = hs \<Longrightarrow> hs \<noteq> 0 \<Longrightarrow>
   FindNextChainCert_loop lib hs cert (c # chain) = FindNextChainCert_loop lib hs cert chain"
  by (simp add: xmlSecOpenSSLX509GetSubjectHash_def)

lemma FindNextChainCert_loop_same_subject:
  assumes "\<forall>c \<in> set chain. subject_name c = subject_name cert"
    and "X509_NAME_hash_ex lib (subject_name cert) \<noteq> 0"
  shows "FindNextChainCert_loop lib (X509_NAME_hash_ex lib (subject_name cert)) cert chain = None"
  using assms(1)
proof (induction chain)
  case Nil
  show ?case by simp
next
  case (Cons c chain)
  have s: "subject_name c = subject_name cert"
    using Cons.prems by simp
  have h: "X509_NAME_hash_ex lib (subject_name c) = X509_NAME_hash_ex lib (subject_name cert)"
    by (simp only: s)
  have r: "\<forall>c \<in> set chain. subject_name c = subject_name cert"
    using Cons.prems by simp
  have "FindNextChainCert_loop lib (X509_NAME_hash_ex lib (subject_name cert)) cert (c # chain)
        = FindNextChainCert_loop lib (X509_NAME_hash_ex lib (subject_name cert)) cert chain"
    by (rule FindNextChainCert_loop_skip[OF h assms(2)])
  also have "\<dots> = None"
    by (rule Cons.IH[OF r])
  finally show ?case .
qed

lemma FindNextChainCert_same_subject:
  "\<forall>c \<in> set chain. subject_name c = subject_name cert \<Longrightarrow>
   xmlSecOpenSSLX509FindNextChainCert lib chain cert = None"
  by (simp add: xmlSecOpenSSLX509FindNextChainCert_def Let_def
        xmlSecOpenSSLX509GetSubjectHash_def FindNextChainCert_loop_same_subject)

text \<open>
  C2. The claim: a candidate is left out of the certificates that start a verification
  exactly when some other candidate has an issuer name equal to its subject name.  The
  NSS store does so ("if cert is the issuer of any other cert in the list, then it is to
  be skipped").  The OpenSSL store means to pass over the certificate itself and its
  copies ("same cert but different copy, skip for self-signed certs"), but it takes for a
  copy every candidate whose subject name has the same hash, so a different certificate
  of the same name is never looked at as one that the candidate has issued.  Evaluated on
  a certificate of the subject Root that Other has issued, together with the self-signed
  certificate of Root: the self-signed certificate is another candidate whose issuer is
  the subject of the first, yet no next certificate is found for the first; it is tried
  and, Other being trusted, returned.  The NSS loop on the same two certificates leaves
  the first out and keeps the self-signed one.
\<close>

theorem C2_same_name_issuer_not_excluded:
  "ex_cross \<noteq> ex_root
   \<and> issuer_name ex_root = subject_name ex_cross
   \<and> xmlSecOpenSSLX509FindNextChainCert ex_lib [ex_cross, ex_root] ex_cross = None
   \<and> xmlSecOpenSSLX509StoreVerify ex_lib
        \<lparr>ctx_xst = [ex_other], ctx_untrusted = None, ctx_crls = None\<rparr>
        [ex_cross, ex_root] None ex_keyInfoCtx = Ret (Inr ex_cross)
   \<and> nss_cross \<noteq> nss_root
   \<and> derIssuer nss_root = derSubject nss_cross
   \<and> NssStoreVerify_issuer_of_other [nss_cross, nss_root] nss_cross
   \<and> \<not> NssStoreVerify_issuer_of_other [nss_cross, nss_root] nss_root"
  by code_simp

section \<open>The issuer of a revocation list\<close>

text \<open>
  The verification of a list returns -1, 0 or 1, and the loop over the lists of the call
  in closed form: it fails when the verification of some list returns -1 and otherwise
  keeps the lists whose verification returns 1.
\<close>

lemma VerifyCRL_range:
  "xmlSecOpenSSLX509VerifyCRL lib store crl = - 1
   \<or> xmlSecOpenSSLX509VerifyCRL lib store crl = 0
   \<or> xmlSecOpenSSLX509VerifyCRL lib store crl = 1"
  by (simp add: xmlSecOpenSSLX509VerifyCRL_def Let_def split: option.split)

lemma VerifyCRL_no_issuer:
  "(\<forall>x \<in> set store. X509_NAME_cmp lib (subject_name x) (crl_issuer crl) \<noteq> 0)
   \<Longrightarrow> xmlSecOpenSSLX509VerifyCRL lib store crl = - 1"
proof -
  assume "\<forall>x \<in> set store. X509_NAME_cmp lib (subject_name x) (crl_issuer crl) \<noteq> 0"
  then have "find (\<lambda>x. X509_NAME_cmp lib (subject_name x) (crl_issuer crl) = 0) store = None"
    by (simp add: find_None_iff)
  then show ?thesis
    by (simp add: xmlSecOpenSSLX509VerifyCRL_def X509_STORE_CTX_get_by_subject_def)
qed

lemma StoreVerify_crls_eq:
  "StoreVerify_crls lib store cs =
     (if list_ex (\<lambda>crl. xmlSecOpenSSLX509VerifyCRL lib store crl = - 1) cs then None
      else Some (filter (\<lambda>crl. xmlSecOpenSSLX509VerifyCRL lib store crl = 1) cs))"
proof (induction cs)
  case Nil
  show ?case by simp
next
  case (Cons crl cs)
  from VerifyCRL_range[of lib store crl] Cons show ?case
    by (auto simp: Let_def)
qed

lemma StoreVerify_filtered_abort:
  "list_ex (\<lambda>crl. xmlSecOpenSSLX509VerifyCRL lib (ctx_xst ctx) crl = - 1) cs
   \<Longrightarrow> StoreVerify_filtered lib ctx certs (Some cs) = Ret None"
  by (simp add: StoreVerify_filtered_def StoreVerify_crls_eq)

text \<open>
  C3 (as amended). The issuer of a list is looked up in the certificates of the trusted
  store, and nowhere else: it is a certificate whose subject compares equal to the
  issuer of the list under the name comparison of the library.  When no certificate of
  the store is such the verification of the list returns -1.  When one is found, the
  result is decided by the certificate found: -1 when its public key cannot be obtained,
  1 when the signature verifies with that key, and 0 otherwise.  A list of the call
  whose verification returns -1 makes \<open>xmlSecOpenSSLX509StoreVerify\<close> return no
  certificate and raise an internal error, whatever the certificates of the call and the
  flags are; so does, in particular, a list whose issuer the store lacks.
\<close>

theorem C3_crl_issuer_lookup:
  "((\<forall>x \<in> set store. X509_NAME_cmp lib (subject_name x) (crl_issuer crl) \<noteq> 0)
      \<longrightarrow> xmlSecOpenSSLX509VerifyCRL lib store crl = - 1)
   \<and> (\<forall>xobj. find (\<lambda>x. X509_NAME_cmp lib (subject_name x) (crl_issuer crl) = 0) store = Some xobj
        \<longrightarrow> xmlSecOpenSSLX509VerifyCRL lib store crl
            = (case pubkey xobj of
                 None \<Rightarrow> - 1
               | Some pkey \<Rightarrow> if X509_CRL_verify lib crl pkey = 1 then 1 else 0))
   \<and> ((\<exists>crl \<in> set cs. xmlSecOpenSSLX509VerifyCRL lib (ctx_xst ctx) crl = - 1)
        \<longrightarrow> xmlSecOpenSSLX509StoreVerify lib ctx certs (Some cs) keyInfoCtx
            = Ret (Inl (Some XMLSEC_ERRORS_R_XMLSEC_FAILED)))
   \<and> ((\<exists>crl \<in> set cs. \<forall>x \<in> set (ctx_xst ctx).
           X509_NAME_cmp lib (subject_name x) (crl_issuer crl) \<noteq> 0)
        \<longrightarrow> xmlSecOpenSSLX509StoreVerify lib ctx certs (Some cs) keyInfoCtx
            = Ret (Inl (Some XMLSEC_ERRORS_R_XMLSEC_FAILED)))"
proof -
  have 1: "(\<forall>x \<in> set store. X509_NAME_cmp lib (subject_name x) (crl_issuer crl) \<noteq> 0)
      \<longrightarrow> xmlSecOpenSSLX509VerifyCRL lib store crl = - 1"
    using VerifyCRL_no_issuer[of store lib crl] by blast
  have 2: "\<forall>xobj. find (\<lambda>x. X509_NAME_cmp lib (subject_name x) (crl_issuer crl) = 0) store = Some xobj
        \<longrightarrow> xmlSecOpenSSLX509VerifyCRL lib store crl
            = (case pubkey xobj of
                 None \<Rightarrow> - 1
               | Some pkey \<Rightarrow> if X509_CRL_verify lib crl pkey = 1 then 1 else 0)"
    by (simp add: xmlSecOpenSSLX509VerifyCRL_def X509_STORE_CTX_get_by_subject_def
          X509_get_pubkey_def Let_def split: option.split)
  have 3: "(\<exists>crl \<in> set cs. xmlSecOpenSSLX509VerifyCRL lib (ctx_xst ctx) crl = - 1)
        \<longrightarrow> xmlSecOpenSSLX509StoreVerify lib ctx certs (Some cs) keyInfoCtx
            = Ret (Inl (Some XMLSEC_ERRORS_R_XMLSEC_FAILED))"
    by (simp add: xmlSecOpenSSLX509StoreVerify_def StoreVerify_filtered_abort list_ex_iff)
  have 4: "(\<exists>crl \<in> set cs. \<forall>x \<in> set (ctx_xst ctx).
           X509_NAME_cmp lib (subject_name x) (crl_issuer crl) \<noteq> 0)
        \<longrightarrow> xmlSecOpenSSLX509StoreVerify lib ctx certs (Some cs) keyInfoCtx
            = Ret (Inl (Some XMLSEC_ERRORS_R_XMLSEC_FAILED))"
    using 3 VerifyCRL_no_issuer[of "ctx_xst ctx" lib] by blast
  from 1 2 3 4 show ?thesis by blast
qed

lemma ex_name_cmp_values:
  "ex_name_cmp (ex_name ''Leaf6'') (ex_name ''Root'') \<noteq> 0"
  "ex_name_cmp (ex_name ''Root'') (ex_name ''Root'') = 0"
  "ex_name_cmp (ex_name ''Root'') (ex_name ''root'') = 0"
  by code_simp+

text \<open>
  At a concrete input: the list of the root is refused with -1 by a store that holds
  only a leaf, verifies (1) in the store that holds the root, also when its issuer is
  written with a small letter, a list with another signature does not verify (0) there,
  and the refused list aborts the verification.
\<close>

theorem C3_crl_issuer_lookup_witness:
  "xmlSecOpenSSLX509VerifyCRL ex_lib [ex_cert6] ex_crl_fresh = - 1
   \<and> xmlSecOpenSSLX509VerifyCRL ex_lib [ex_root] ex_crl_fresh = 1
   \<and> xmlSecOpenSSLX509VerifyCRL ex_lib [ex_root] ex_crl_lower = 1
   \<and> xmlSecOpenSSLX509VerifyCRL ex_lib [ex_root] ex_crl_forged = 0
   \<and> xmlSecOpenSSLX509StoreVerify ex_lib
        \<lparr>ctx_xst = [ex_cert6], ctx_untrusted = None, ctx_crls = None\<rparr>
        [ex_cert6] (Some [ex_crl_fresh]) ex_keyInfoCtx
      = Ret (Inl (Some XMLSEC_ERRORS_R_XMLSEC_FAILED))"
proof -
  have c: "X509_NAME_cmp ex_lib = ex_name_cmp"
    by (simp add: ex_lib_def)
  have f: "find (\<lambda>x. X509_NAME_cmp ex_lib (subject_name x) (crl_issuer c) = 0) [ex_root]
           = Some ex_root"
    if "crl_issuer c = ex_name ''Root'' \<or> crl_issuer c = ex_name ''root''" for c :: X509_CRL
    using that ex_name_cmp_values by (auto simp: c ex_root_def ex_cert_def)
  have i: "crl_issuer ex_crl_fresh = ex_name ''Root''" "crl_issuer ex_crl_forged = ex_name ''Root''"
    "crl_issuer ex_crl_lower = ex_name ''root''"
    by (simp_all add: ex_crl_fresh_def ex_crl_forged_def ex_crl_lower_def)
  have 1: "xmlSecOpenSSLX509VerifyCRL ex_lib [ex_cert6] ex_crl_fresh = - 1"
    using C3_crl_issuer_lookup[of "[ex_cert6]" ex_lib ex_crl_fresh] ex_name_cmp_values
    by (simp add: c i ex_cert6_def ex_cert_def)
  have 2: "xmlSecOpenSSLX509VerifyCRL ex_lib [ex_root] ex_crl_fresh = 1"
    using C3_crl_issuer_lookup[of "[ex_root]" ex_lib ex_crl_fresh] f[of ex_crl_fresh] i
    by (simp add: ex_root_def ex_cert_def ex_crl_fresh_def ex_lib_def)
  have lw: "xmlSecOpenSSLX509VerifyCRL ex_lib [ex_root] ex_crl_lower = 1"
    using C3_crl_issuer_lookup[of "[ex_root]" ex_lib ex_crl_lower] f[of ex_crl_lower] i
    by (simp add: ex_root_def ex_cert_def ex_crl_lower_def ex_lib_def)
  have 3: "xmlSecOpenSSLX509VerifyCRL ex_lib [ex_root] ex_crl_forged = 0"
    using C3_crl_issuer_lookup[of "[ex_root]" ex_lib ex_crl_forged] f[of ex_crl_forged] i
    by (simp add: ex_root_def ex_cert_def ex_crl_forged_def ex_lib_def)
  have 4: "xmlSecOpenSSLX509StoreVerify ex_lib
        \<lparr>ctx_xst = [ex_cert6], ctx_untrusted = None, ctx_crls = None\<rparr>
        [ex_cert6] (Some [ex_crl_fresh]) ex_keyInfoCtx
      = Ret (Inl (Some XMLSEC_ERRORS_R_XMLSEC_FAILED))"
    using C3_crl_issuer_lookup[of _ ex_lib _ "[ex_crl_fresh]"
            "\<lparr>ctx_xst = [ex_cert6], ctx_untrusted = None, ctx_crls = None\<rparr>"
            "[ex_cert6]" ex_keyInfoCtx] ex_name_cmp_values
    by (simp add: c i ex_cert6_def ex_cert_def)
  from 1 2 lw 3 4 show ?thesis by blast
qed

text \<open>
  The claim as it was stated looks for the issuer among the trust anchors and the
  candidate certificates.  Here the root that issued the list is a candidate of the call
  and an untrusted certificate of the store, but not a trusted one: the issuer is not
  found, and the whole verification is abandoned.
\<close>

theorem C3_issuer_among_candidates_counterexample:
  "X509_NAME_cmp ex_lib (subject_name ex_root) (crl_issuer ex_crl_fresh) = 0
   \<and> xmlSecOpenSSLX509VerifyCRL ex_lib [] ex_crl_fresh = - 1
   \<and> xmlSecOpenSSLX509StoreVerify ex_lib
        \<lparr>ctx_xst = [], ctx_untrusted = Some [ex_root], ctx_crls = None\<rparr>
        [ex_root, ex_cert6] (Some [ex_crl_fresh]) ex_keyInfoCtx
      = Ret (Inl (Some XMLSEC_ERRORS_R_XMLSEC_FAILED))"
  by code_simp

section \<open>The revocation filter\<close>
















end
